theory Spec2Isabelle
  imports Main "HOL-Library.AList"
begin

section \<open>Values, events and the loader state of lib/serviceLoader.js\<close>

text \<open>
  JavaScript values that reach the configuration methods. Only their truthiness
  and \<open>Array.isArray\<close> are inspected by the loader.
\<close>

datatype jsval =
    Undefined
  | Null
  | JBool bool
  | JNum int
  | JStr string
  | JArr "jsval list"
  | JObj "(string \<times> jsval) list"
  | JFun nat

fun truthy :: "jsval \<Rightarrow> bool" where
  "truthy Undefined = False"
| "truthy Null = False"
| "truthy (JBool b) = b"
| "truthy (JNum n) = (n \<noteq> 0)"
| "truthy (JStr s) = (s \<noteq> [])"
| "truthy (JArr xs) = True"
| "truthy (JObj kvs) = True"
| "truthy (JFun f) = True"

fun isArray :: "jsval \<Rightarrow> bool" where
  "isArray (JArr xs) = True"
| "isArray v = False"

text \<open>A template string is kept as its pieces: literal text and interpolated values.\<close>

datatype piece = S string | N nat | V jsval

text \<open>The teardown promises that \<open>closeGracefully\<close> pushes on \<open>actions\<close>.\<close>

datatype closer = KnexDestroy | AmqClose | HttpClose | ExitHook jsval

text \<open>The callbacks handed to \<open>setTimeout\<close> and kept in \<open>timeouts\<close>.\<close>

datatype callback = CbCheckDb | CbPingHosts "string option list"

text \<open>The startup thunks stored in \<open>promises\<close>.\<close>

datatype action =
    CacheStart jsval
  | AmqStart jsval
  | ExpressListen jsval jsval
  | Custom jsval

text \<open>Every effect of the loader on the outside world, in the order it happens.\<close>

datatype event =
    Info "piece list"
  | Warn "piece list"
  | Error "piece list"
  | Debug "piece list"
  | ClearTimeout string
  | Launch closer
  | Deadline nat
  | Delay nat
  | SetTimeout string int
  | Run string action
  | DbInit string string
  | Callback
  | ProcessExit nat

text \<open>
  The variables a loader closes over, with the trace of its effects. \<open>timeouts\<close>
  and \<open>amq\<close> belong to the module and are shared by every loader of the process;
  one loader is modelled. \<open>knexObject\<close> and \<open>httpServer\<close> record whether the
  variable holds a handle, \<open>dbFailing\<close> whether it is truthy.
\<close>

record state =
  amq :: jsval
  timeouts :: "(string \<times> callback \<times> int) list"
  promiseOrder :: "string list"
  promises :: "string \<rightharpoonup> action"
  countCustom :: nat
  waitingForExit :: bool
  dbFailureCount :: nat
  dbFailureMax :: int
  dbFrequency :: int
  dbFailing :: bool
  pingFailureCount :: nat
  pingFailureMax :: int
  pingFrequency :: int
  pingFailing :: "string option"
  knexObject :: bool
  httpServer :: bool
  onExitPromise :: jsval
  trace :: "event list"

definition dbReadiness :: int where "dbReadiness = 10000"
definition pingReadiness :: int where "pingReadiness = 10000"

text \<open>
  The state right after \<open>serviceLoader()\<close> returns. The imported module \<open>amq\<close>
  is not part of the file; its value is a parameter.
\<close>

definition serviceLoader :: "jsval \<Rightarrow> state" where
  "serviceLoader amqModule =
     \<lparr> amq = amqModule, timeouts = [], promiseOrder = [], promises = Map.empty,
       countCustom = 1, waitingForExit = False,
       dbFailureCount = 0, dbFailureMax = 8, dbFrequency = 20000, dbFailing = False,
       pingFailureCount = 0, pingFailureMax = 8, pingFrequency = 30000, pingFailing = None,
       knexObject = False, httpServer = False, onExitPromise = Undefined,
       trace = [] \<rparr>"

definition emit :: "event list \<Rightarrow> state \<Rightarrow> state" where
  "emit es s = s\<lparr>trace := trace s @ es\<rparr>"

section \<open>exitProcess\<close>

text \<open>\<open>/^SIG/.exec(signal)\<close>: the reason starts with the three letters SIG.\<close>

definition exitCode :: "string \<Rightarrow> nat" where
  "exitCode signal = (if take 3 signal = ''SIG'' then 0 else 1)"

definition exitProcess :: "string \<Rightarrow> state \<Rightarrow> state" where
  "exitProcess signal s =
     emit [Info [S ''Process killed from signal: '', S signal],
           ProcessExit (exitCode signal)] s"

section \<open>closeGracefully\<close>

definition teardownActions :: "state \<Rightarrow> closer list" where
  "teardownActions s =
     (if knexObject s then [KnexDestroy] else []) @
     (if truthy (amq s) then [AmqClose] else []) @
     (if httpServer s then [HttpClose] else []) @
     (if truthy (onExitPromise s) then [ExitHook (onExitPromise s)] else [])"

text \<open>
  The synchronous part of \<open>closeGracefully\<close>: the latch test, the log line, the
  clearing of every registered timer, the launch of the teardown promises and the
  arming of the 10 s timer. The function does not set \<open>waitingForExit\<close> itself.
\<close>

definition closeGracefully :: "string \<Rightarrow> state \<Rightarrow> state" where
  "closeGracefully signal s =
     (if waitingForExit s then s
      else emit
        ([Info [S ''Gracefully shutting down from '', S signal, S ''...'']] @
         (if timeouts s \<noteq> [] then [Info [S ''> All timeouts cleared'']] else []) @
         map (\<lambda>k. ClearTimeout k) (map fst (timeouts s)) @
         map Launch (teardownActions s) @
         [Deadline 10000]) s)"

text \<open>
  The listener installed by \<open>process.on\<close> for SIGINT, SIGTERM, SIGQUIT,
  uncaughtException and unhandledRejection.
\<close>

definition signals :: "string list" where
  "signals = [''SIGINT'', ''SIGTERM'', ''SIGQUIT'', ''uncaughtException'', ''unhandledRejection'']"

definition onSignal :: "string \<Rightarrow> piece list option \<Rightarrow> state \<Rightarrow> state" where
  "onSignal signal err s =
     (closeGracefully signal (case err of None \<Rightarrow> s | Some e \<Rightarrow> emit [Error e] s))
       \<lparr>waitingForExit := True\<rparr>"

text \<open>
  What every caller of \<open>closeGracefully\<close> does (the process listeners, \<open>checkDb\<close>
  and \<open>pingHosts\<close>): the call, then \<open>waitingForExit = true\<close> in the same turn.
\<close>

definition trigger :: "string \<Rightarrow> state \<Rightarrow> state" where
  "trigger signal s = (closeGracefully signal s)\<lparr>waitingForExit := True\<rparr>"

fun isDeadline :: "event \<Rightarrow> bool" where
  "isDeadline (Deadline d) = True"
| "isDeadline e = False"

fun isLaunch :: "event \<Rightarrow> bool" where
  "isLaunch (Launch c) = True"
| "isLaunch e = False"

fun isClear :: "event \<Rightarrow> bool" where
  "isClear (ClearTimeout k) = True"
| "isClear e = False"

text \<open>The number of teardown rounds a trace holds: one 10 s timer is armed per round.\<close>

definition teardownRuns :: "state \<Rightarrow> nat" where
  "teardownRuns s = length (filter isDeadline (trace s))"

definition teardownEvents :: "state \<Rightarrow> event list" where
  "teardownEvents s = filter (\<lambda>e. isDeadline e \<or> isLaunch e \<or> isClear e) (trace s)"

text \<open>The reasons \<open>closeGracefully\<close> was entered with, read off its first log line.\<close>

definition reasonOf :: "event \<Rightarrow> string option" where
  "reasonOf e =
     (case e of
        Info [S a, S r, S b] \<Rightarrow>
          (if a = ''Gracefully shutting down from '' \<and> b = ''...'' then Some r else None)
      | _ \<Rightarrow> None)"

fun reasonsOf :: "event list \<Rightarrow> string list" where
  "reasonsOf [] = []"
| "reasonsOf (e # es) =
     (case reasonOf e of Some r \<Rightarrow> r # reasonsOf es | None \<Rightarrow> reasonsOf es)"

definition reasons :: "state \<Rightarrow> string list" where
  "reasons s = reasonsOf (trace s)"

section \<open>Promises\<close>

text \<open>
  How a promise ends, with the time in milliseconds at which it does, counted from the
  moment it was created: fulfilled with a value, rejected with an error message, or
  never settled.
\<close>

datatype 'a settle = Fulfils nat 'a | Rejects nat string | Pending

fun isPending :: "'a settle \<Rightarrow> bool" where
  "isPending Pending = True"
| "isPending p = False"

fun rejections :: "'a settle list \<Rightarrow> (nat \<times> string) list" where
  "rejections [] = []"
| "rejections (Rejects t e # ps) = (t, e) # rejections ps"
| "rejections (p # ps) = rejections ps"

fun fulfilments :: "'a settle list \<Rightarrow> (nat \<times> 'a) list" where
  "fulfilments [] = []"
| "fulfilments (Fulfils t v # ps) = (t, v) # fulfilments ps"
| "fulfilments (p # ps) = fulfilments ps"

text \<open>The rejection that happens first; the earlier list position wins a tie.\<close>

fun earliest :: "(nat \<times> string) \<Rightarrow> (nat \<times> string) list \<Rightarrow> (nat \<times> string)" where
  "earliest r [] = r"
| "earliest r (q # qs) = earliest (if fst q < fst r then q else r) qs"

text \<open>
  \<open>Promise.all\<close> (bluebird): rejected as soon as one member is rejected, with that
  member's error; fulfilled once every member is; pending otherwise.
\<close>

definition promiseAll :: "'a settle list \<Rightarrow> 'a list settle" where
  "promiseAll ps =
     (case rejections ps of
        r # rs \<Rightarrow> (case earliest r rs of (t, e) \<Rightarrow> Rejects t e)
      | [] \<Rightarrow>
          if list_ex isPending ps then Pending
          else Fulfils (fold max (map fst (fulfilments ps)) 0) (map snd (fulfilments ps)))"

section \<open>The end of a shutdown\<close>

fun exits :: "event list \<Rightarrow> nat list" where
  "exits [] = []"
| "exits (ProcessExit c # es) = c # exits es"
| "exits (e # es) = exits es"

text \<open>The status the process ends with: that of the first \<open>process.exit\<close>.\<close>

definition exitStatus :: "state \<Rightarrow> nat option" where
  "exitStatus s = (case exits (trace s) of [] \<Rightarrow> None | c # cs \<Rightarrow> Some c)"

definition forceExit :: "state \<Rightarrow> state" where
  "forceExit s =
     (exitProcess ''FORCE'' (emit [Info [S ''Exit timeout: Forcing it!'']] s))
       \<lparr>waitingForExit := True\<rparr>"

text \<open>
  The asynchronous part of \<open>closeGracefully\<close>: \<open>Promise.all(actions)\<close> raced against
  the 10 s timer. \<open>world\<close> tells how each teardown promise ends. The result is the
  time of the call of \<open>exitProcess\<close> and the state then. A promise that settles at
  10000 ms or later comes after the timer, and the process is gone by then. The line
  each teardown promise logs when it is fulfilled is not traced.
\<close>

definition awaitShutdown ::
  "string \<Rightarrow> (closer \<Rightarrow> unit settle) \<Rightarrow> closer list \<Rightarrow> state \<Rightarrow> nat \<times> state" where
  "awaitShutdown signal world actions s =
     (case promiseAll (map world actions) of
        Fulfils t vs \<Rightarrow>
          if t < 10000
          then (t, (exitProcess signal (emit [Info [S ''> Everything is closed'']] s))
                     \<lparr>waitingForExit := True\<rparr>)
          else (10000, forceExit s)
      | Rejects t e \<Rightarrow>
          if t < 10000 then (10000, forceExit (emit [Error [S e]] s))
          else (10000, forceExit s)
      | Pending \<Rightarrow> (10000, forceExit s))"

text \<open>A whole shutdown from one trigger: the synchronous part, then the race.\<close>

definition shutdown :: "string \<Rightarrow> (closer \<Rightarrow> unit settle) \<Rightarrow> state \<Rightarrow> nat \<times> state" where
  "shutdown signal world s = awaitShutdown signal world (teardownActions s) (trigger signal s)"

fun settledBefore :: "nat \<Rightarrow> 'a settle \<Rightarrow> bool" where
  "settledBefore d (Fulfils t v) = (t < d)"
| "settledBefore d (Rejects t e) = (t < d)"
| "settledBefore d Pending = False"

fun fulfilledBefore :: "nat \<Rightarrow> 'a settle \<Rightarrow> bool" where
  "fulfilledBefore d (Fulfils t v) = (t < d)"
| "fulfilledBefore d p = False"

section \<open>checkDb\<close>

datatype probe = ProbeOk | ProbeFail string

text \<open>What one run of a monitor leaves behind for the event loop.\<close>

datatype resume =
    Throws string
  | Again nat
  | Scheduled string int
  | Escalated
  | Hung

text \<open>
  One call of \<open>checkDb\<close>, up to the point where it waits again. \<open>p\<close> is the answer
  of \<open>knexObject.raw('SELECT 1')\<close>.
\<close>

definition checkDb :: "probe \<Rightarrow> state \<Rightarrow> resume \<times> state" where
  "checkDb p s =
     (if \<not> knexObject s then (Throws ''knexObject not defined'', s)
      else
        let s1 = emit [Debug [S ''Check database'']] s in
        case p of
          ProbeOk \<Rightarrow>
            (Scheduled ''checkDb'' (dbFrequency s1),
             emit ((if dbFailing s1 then [Info [S ''Recovered db!'']] else []) @
                   [SetTimeout ''checkDb'' (dbFrequency s1)])
               (s1\<lparr>dbFailureCount := 0, dbFailing := False,
                   timeouts := AList.update ''checkDb'' (CbCheckDb, dbFrequency s1)
                                 (timeouts s1)\<rparr>))
        | ProbeFail msg \<Rightarrow>
            if int (dbFailureCount s1) < dbFailureMax s1
            then
              let c = dbFailureCount s1 + 1; waitCount = 2000 * c in
              (Again waitCount,
               emit [Warn [S ''Error connecting to database - '', N c,
                           S '' attempts - retying in '', N (waitCount div 1000), S ''s...''],
                     Delay waitCount]
                 (s1\<lparr>dbFailureCount := c, dbFailing := True\<rparr>))
            else
              (Escalated,
               (closeGracefully ''NODB''
                  (emit [Error [S ''Error connecting to database: '', S msg]] s1))
                 \<lparr>waitingForExit := True\<rparr>))"

text \<open>
  The monitor as the event loop runs it: each answer of the database starts the next
  call, after the delay or the timer of the call before. After an escalation or a
  throw nothing calls \<open>checkDb\<close> again.
\<close>

fun runCheckDb :: "probe list \<Rightarrow> state \<Rightarrow> state" where
  "runCheckDb [] s = s"
| "runCheckDb (p # ps) s =
     (case checkDb p s of
        (Again w, s') \<Rightarrow> runCheckDb ps s'
      | (Scheduled k d, s') \<Rightarrow> runCheckDb ps s'
      | (r, s') \<Rightarrow> s')"

section \<open>testHost and pingHosts\<close>

text \<open>
  The answer of \<open>net.createConnection(Number(port), host)\<close>: a \<open>connect\<close> event,
  an \<open>error\<close> event, neither, or an exception thrown by the call itself (Node throws a
  RangeError for a port that is not a number from 0 to 65535).
\<close>

datatype conn = Connects nat | Refused nat | Silent | Raised string

fun splitOn :: "char \<Rightarrow> string \<Rightarrow> string list" where
  "splitOn c [] = [[]]"
| "splitOn c (x # xs) =
     (if x = c then [] # splitOn c xs
      else (case splitOn c xs of [] \<Rightarrow> [[x]] | w # ws \<Rightarrow> (x # w) # ws))"

text \<open>\<open>addr.split(':')\<close>, with \<open>splitHost[0]\<close> and \<open>splitHost[1] || 80\<close>.\<close>

definition hostPort :: "string \<Rightarrow> string \<times> string" where
  "hostPort addr =
     (let splitHost = splitOn CHR '':'' addr;
          host = hd splitHost;
          port = (case tl splitHost of p # ps \<Rightarrow> (if p \<noteq> [] then p else ''80'') | [] \<Rightarrow> ''80'')
      in (host, port))"

text \<open>The TypeError of \<open>addr.split\<close> when \<open>addr\<close> is \<open>null\<close>.\<close>

definition nullSplit :: string where
  "nullSplit = ''TypeError: cannot read property split of null''"

text \<open>
  \<open>testHost\<close>. An address is a string or \<open>null\<close> (\<open>None\<close>), which is what
  \<open>url.parse(u).host\<close> gives. On \<open>null\<close> the call throws before any promise exists
  (\<open>Inl\<close>). An exception thrown by \<open>createConnection\<close> inside the promise's
  executor rejects the promise at once with the exception's message; an \<open>error\<close>
  event rejects it with the address.
\<close>

definition testHost ::
  "(string \<Rightarrow> string \<Rightarrow> conn) \<Rightarrow> string option \<Rightarrow> string + string settle" where
  "testHost net addr =
     (case addr of
        None \<Rightarrow> Inl nullSplit
      | Some a \<Rightarrow>
          Inr (case net (snd (hostPort a)) (fst (hostPort a)) of
                 Connects t \<Rightarrow> Fulfils t a
               | Refused t \<Rightarrow> Rejects t a
               | Silent \<Rightarrow> Pending
               | Raised m \<Rightarrow> Rejects 0 m))"

text \<open>\<open>xs.map(f)\<close> for an \<open>f\<close> that may throw: the first exception ends the map.\<close>

fun collect :: "('e + 'a) list \<Rightarrow> 'e + 'a list" where
  "collect [] = Inr []"
| "collect (Inl e # xs) = Inl e"
| "collect (Inr v # xs) = (case collect xs of Inl e \<Rightarrow> Inl e | Inr vs \<Rightarrow> Inr (v # vs))"

text \<open>\<open>Array.prototype.join\<close>: \<open>null\<close> is written as the empty string.\<close>

fun joinWith :: "string \<Rightarrow> string option list \<Rightarrow> string" where
  "joinWith sep [] = []"
| "joinWith sep [x] = (case x of Some a \<Rightarrow> a | None \<Rightarrow> [])"
| "joinWith sep (x # y # ys) =
     (case x of Some a \<Rightarrow> a | None \<Rightarrow> []) @ sep @ joinWith sep (y # ys)"

text \<open>
  One call of \<open>pingHosts\<close>, up to the point where it waits again; \<open>net\<close> is the
  network of this cycle. When \<open>hostList.map(testHost)\<close> throws, the call throws.
\<close>

definition pingHosts ::
  "(string \<Rightarrow> string \<Rightarrow> conn) \<Rightarrow> string option list \<Rightarrow> state \<Rightarrow> resume \<times> state" where
  "pingHosts net hostList s =
     (let s1 = emit [Debug [S ''Ping hosts: '', S (joinWith '', '' hostList)]] s in
      case collect (map (testHost net) hostList) of
        Inl e \<Rightarrow> (Throws e, s1)
      | Inr tests \<Rightarrow>
     (case promiseAll tests of
        Fulfils t vs \<Rightarrow>
          (Scheduled ''pingHosts'' (pingFrequency s1),
           emit ((case pingFailing s1 of
                    Some a \<Rightarrow> (if a \<noteq> [] then [Info [S ''Recovered ping '', S a, S ''!'']] else [])
                  | None \<Rightarrow> []) @
                 [SetTimeout ''pingHosts'' (pingFrequency s1)])
             (s1\<lparr>pingFailureCount := 0,
                 pingFailing := (case pingFailing s1 of
                                   Some a \<Rightarrow> (if a \<noteq> [] then None else Some a)
                                 | None \<Rightarrow> None),
                 timeouts := AList.update ''pingHosts''
                               (CbPingHosts hostList, pingFrequency s1) (timeouts s1)\<rparr>))
      | Rejects t msg \<Rightarrow>
          if int (pingFailureCount s1) < pingFailureMax s1
          then
            let c = pingFailureCount s1 + 1; waitCount = 2000 * c in
            (Again waitCount,
             emit [Warn [S ''Unable to ping '', S msg, S '' - '', N c,
                         S '' attempts - retying in '', N (waitCount div 1000), S ''s...''],
                   Delay waitCount]
               (s1\<lparr>pingFailureCount := c, pingFailing := Some msg\<rparr>))
          else
            (Escalated,
             (closeGracefully ''NOHOST''
                (emit [Error [S ''Error connecting to '', S msg]] s1))
               \<lparr>waitingForExit := True\<rparr>)
      | Pending \<Rightarrow> (Hung, s1)))"

text \<open>
  The monitor as the event loop runs it, one network per cycle. After an escalation, a
  throw or a cycle that never settles nothing calls \<open>pingHosts\<close> again.
\<close>

fun runPingHosts ::
  "(string \<Rightarrow> string \<Rightarrow> conn) list \<Rightarrow> string option list \<Rightarrow> state \<Rightarrow> state" where
  "runPingHosts [] hostList s = s"
| "runPingHosts (net # nets) hostList s =
     (case pingHosts net hostList s of
        (Again w, s') \<Rightarrow> runPingHosts nets hostList s'
      | (Scheduled k d, s') \<Rightarrow> runPingHosts nets hostList s'
      | (r, s') \<Rightarrow> s')"

fun delays :: "event list \<Rightarrow> nat list" where
  "delays [] = []"
| "delays (Delay d # es) = d # delays es"
| "delays (e # es) = delays es"

text \<open>The timers armed through \<open>setTimeout\<close> under a name of \<open>timeouts\<close>.\<close>

fun armed :: "event list \<Rightarrow> (string \<times> int) list" where
  "armed [] = []"
| "armed (SetTimeout k d # es) = (k, d) # armed es"
| "armed (e # es) = armed es"

section \<open>The chain: configuration methods\<close>

text \<open>
  The \<open>options\<close> argument of \<open>ping\<close> and \<open>db\<close>: each property is absent or
  holds a string (the two connection settings) or a number (the two monitor settings).
\<close>

record options =
  pgUrl :: "string option"
  pgDatabase :: "string option"
  failureMax :: "int option"
  frequency :: "int option"

text \<open>
  \<open>if (options && options.x) v = options.x\<close>: the property when it is truthy, the
  old value \<open>v\<close> otherwise.
\<close>

definition numOr :: "options option \<Rightarrow> (options \<Rightarrow> int option) \<Rightarrow> int \<Rightarrow> int" where
  "numOr opts field v =
     (case opts of
        Some opt \<Rightarrow> (case field opt of Some n \<Rightarrow> (if n \<noteq> 0 then n else v) | None \<Rightarrow> v)
      | None \<Rightarrow> v)"

definition strOr :: "options option \<Rightarrow> (options \<Rightarrow> string option) \<Rightarrow> string \<Rightarrow> string" where
  "strOr opts field v =
     (case opts of
        Some opt \<Rightarrow> (case field opt of Some a \<Rightarrow> (if a \<noteq> [] then a else v) | None \<Rightarrow> v)
      | None \<Rightarrow> v)"

fun elements :: "jsval \<Rightarrow> jsval list" where
  "elements (JArr xs) = xs"
| "elements v = []"


text \<open>The TypeError of \<open>url.parse\<close> when its argument is not a string.\<close>

definition urlTypeError :: string where
  "urlTypeError = ''TypeError: the url argument must be of type string''"

text \<open>
  \<open>url.parse(u).host\<close>: a TypeError when \<open>u\<close> is not a string; otherwise the host
  that Node's parser finds in the string, \<open>null\<close> (\<open>None\<close>) when it finds none.
  The parser, \<open>hostOf\<close>, is not part of the file.
\<close>

definition urlHost :: "(string \<Rightarrow> string option) \<Rightarrow> jsval \<Rightarrow> string + string option" where
  "urlHost hostOf u = (case u of JStr a \<Rightarrow> Inr (hostOf a) | _ \<Rightarrow> Inl urlTypeError)"

text \<open>
  \<open>chain.ping\<close>. A thrown error is \<open>Inl\<close> of its message; the assignments made
  before a throw are lost with the loader. \<open>uniqueValues\<close> stands for
  \<open>utils.uniqueValues\<close>, which is not part of the file.
\<close>

definition chain_ping ::
  "(string \<Rightarrow> string option) \<Rightarrow> (string option list \<Rightarrow> string option list) \<Rightarrow>
     jsval \<Rightarrow> options option \<Rightarrow> state \<Rightarrow> string + state" where
  "chain_ping hostOf uniqueValues urlList opts s =
     (if \<not> truthy urlList \<or> \<not> isArray urlList then Inl ''Missing urlList for ping''
      else
        let s2 = s\<lparr>pingFailureMax := numOr opts failureMax (pingFailureMax s),
                   pingFrequency := numOr opts frequency (pingFrequency s)\<rparr>
        in case collect (map (urlHost hostOf) (filter truthy (elements urlList))) of
             Inl e \<Rightarrow> Inl e
           | Inr hosts \<Rightarrow>
               let hostList = uniqueValues hosts
               in Inr (emit [SetTimeout ''initialPingHosts'' pingReadiness]
                         (s2\<lparr>timeouts := AList.update ''initialPingHosts''
                                            (CbPingHosts (uniqueValues hostList), pingReadiness)
                                            (timeouts s2)\<rparr>)))"




text \<open>\<open>chain.db\<close>; \<open>dbConfig\<close> is the pair of defaults of the module \<open>./db/config\<close>.\<close>

definition chain_db :: "string \<times> string \<Rightarrow> options option \<Rightarrow> state \<Rightarrow> string + state" where
  "chain_db dbConfig opts s =
     (let url = strOr opts pgUrl (fst dbConfig);
          database = strOr opts pgDatabase (snd dbConfig);
          s2 = s\<lparr>dbFailureMax := numOr opts failureMax (dbFailureMax s),
                 dbFrequency := numOr opts frequency (dbFrequency s)\<rparr>
      in Inr (emit [Debug [S ''load db''], DbInit url database,
                    SetTimeout ''initialCheckDb'' dbReadiness]
                (s2\<lparr>knexObject := True,
                    timeouts := AList.update ''initialCheckDb'' (CbCheckDb, dbReadiness)
                                  (timeouts s2)\<rparr>)))"




definition chain_onExit :: "jsval \<Rightarrow> state \<Rightarrow> string + state" where
  "chain_onExit prm s = Inr (s\<lparr>onExitPromise := prm\<rparr>)"

section \<open>The chain: done\<close>

text \<open>
  How a started thunk ends: fulfilled, rejected, or thrown out of before anything was
  started (for \<open>express\<close>: before \<open>httpServer\<close> was assigned).
\<close>

datatype outcome = Fulfilled | Rejected string | Threw string

fun failure :: "outcome \<Rightarrow> string option" where
  "failure Fulfilled = None"
| "failure (Rejected e) = Some e"
| "failure (Threw e) = Some e"

text \<open>One stored thunk \<open>promises[name]()\<close>, run with the outcome the world gives it.\<close>

fun runThunk :: "string \<Rightarrow> action \<Rightarrow> outcome \<Rightarrow> state \<Rightarrow> state" where
  "runThunk name (CacheStart u) out s =
     emit ([Run name (CacheStart u)] @
           (if out = Fulfilled then [Info [S ''> Cache Started'']] else [])) s"
| "runThunk name (AmqStart opts) out s =
     emit ([Run name (AmqStart opts)] @
           (if out = Fulfilled then [Info [S ''> AMQ Started'']] else [])) s"
| "runThunk name (ExpressListen app port) out s =
     emit ([Run name (ExpressListen app port)] @
           (if out = Fulfilled then [Info [S ''> HTTP server Started: '', V port]] else []))
       (case out of Threw e \<Rightarrow> s | r \<Rightarrow> s\<lparr>httpServer := True\<rparr>)"
| "runThunk name (Custom prm) out s = emit [Run name (Custom prm)] s"

text \<open>
  The callback \<open>done\<close> gives to \<open>seqPromise\<close>. \<open>world i\<close> is the outcome of the
  thunk started at position \<open>i\<close> of \<open>promiseOrder\<close>.
\<close>

definition runNamed :: "(nat \<Rightarrow> outcome) \<Rightarrow> nat \<times> string \<Rightarrow> state \<Rightarrow> string option \<times> state" where
  "runNamed world item s =
     (let s1 = emit [Debug [S ''running '', S (snd item)]] s in
      case promises s1 (snd item) of
        Some act \<Rightarrow> (failure (world (fst item)), runThunk (snd item) act (world (fst item)) s1)
      | None \<Rightarrow> (None, s1))"

text \<open>
  Modelled from the spec: \<open>utils.seqPromise\<close> is not part of the file. It calls the
  callback on the items in order, awaits each result before the next call, and is
  rejected with the first failure without calling the callback again.
\<close>

fun seqPromise ::
  "'a list \<Rightarrow> ('a \<Rightarrow> 's \<Rightarrow> string option \<times> 's) \<Rightarrow> 's \<Rightarrow> string option \<times> 's" where
  "seqPromise [] f s = (None, s)"
| "seqPromise (x # xs) f s =
     (case f x s of
        (None, s') \<Rightarrow> seqPromise xs f s'
      | (Some e, s') \<Rightarrow> (Some e, s'))"

definition startFailed :: "string \<Rightarrow> state \<Rightarrow> state" where
  "startFailed e s = (exitProcess ''START'' (emit [Error [S e]] s))\<lparr>waitingForExit := True\<rparr>"

text \<open>
  \<open>chain.done\<close>. \<open>cb\<close> is \<open>None\<close> when no callback is given, and the outcome of the
  callback otherwise. (The log line of readiness ends with an emoji in the file.)
\<close>

definition chain_done :: "(nat \<Rightarrow> outcome) \<Rightarrow> outcome option \<Rightarrow> state \<Rightarrow> state" where
  "chain_done world cb s =
     (let s1 = emit [Info [S ''Starting services...'']] s in
      case seqPromise (enumerate 0 (promiseOrder s1)) (runNamed world) s1 of
        (None, s2) \<Rightarrow>
          (let s3 = emit [Info [S ''Ready to rock!'']] s2 in
           case cb of
             None \<Rightarrow> s3
           | Some out \<Rightarrow>
               (case failure out of
                  None \<Rightarrow> emit [Callback] s3
                | Some e \<Rightarrow> startFailed e (emit [Callback] s3)))
      | (Some e, s2) \<Rightarrow> startFailed e s2)"

fun started :: "event list \<Rightarrow> (string \<times> action) list" where
  "started [] = []"
| "started (Run n a # es) = (n, a) # started es"
| "started (e # es) = started es"

fun launched :: "event list \<Rightarrow> closer list" where
  "launched [] = []"
| "launched (Launch c # es) = c # launched es"
| "launched (e # es) = launched es"

fun isHook :: "closer \<Rightarrow> bool" where
  "isHook (ExitHook h) = True"
| "isHook c = False"

text \<open>A sequence of configuration calls, stopped by the first one that throws.\<close>

fun configure :: "(state \<Rightarrow> string + state) list \<Rightarrow> state \<Rightarrow> string + state" where
  "configure [] s = Inr s"
| "configure (c # cs) s = (case c s of Inl e \<Rightarrow> Inl e | Inr s' \<Rightarrow> configure cs s')"

section \<open>Sequences of configuration calls\<close>







section \<open>Worlds used in the examples\<close>

text \<open>A network in which host \<open>a\<close> refuses every connection and any other host accepts.\<close>

definition downA :: "string \<Rightarrow> string \<Rightarrow> conn" where
  "downA port host = (if host = ''a'' then Refused 5 else Connects 3)"

text \<open>
  A network in which \<open>createConnection\<close> throws for the port 99999 and every other
  connection is accepted.
\<close>

definition badPort :: "string \<Rightarrow> string \<Rightarrow> conn" where
  "badPort port host =
     (if port = ''99999'' then Raised ''RangeError: port should be >= 0 and < 65536''
      else Connects 3)"

text \<open>A network in which every host accepts.\<close>

definition allUp :: "string \<Rightarrow> string \<Rightarrow> conn" where
  "allUp port host = Connects 3"

text \<open>
  A teardown in which closing the database pool is rejected after 5 ms and every
  other teardown promise is fulfilled after 3 ms.
\<close>

definition dbCloseFails :: "closer \<Rightarrow> unit settle" where
  "dbCloseFails c = (case c of KnexDestroy \<Rightarrow> Rejects 5 ''pool busy'' | _ \<Rightarrow> Fulfils 3 ())"

text \<open>A teardown in which every promise is fulfilled after 3 ms.\<close>

definition allClose :: "closer \<Rightarrow> unit settle" where
  "allClose c = Fulfils 3 ()"

text \<open>A start in which every thunk is fulfilled.\<close>

definition allOk :: "nat \<Rightarrow> outcome" where
  "allOk i = Fulfilled"


section \<open>Reading traces\<close>

lemma delays_append: "delays (xs @ ys) = delays xs @ delays ys"
  by (induction xs rule: delays.induct) simp_all

lemma trigger_fields:
  "dbFailureCount (trigger r s) = dbFailureCount s"
  "dbFailureMax (trigger r s) = dbFailureMax s"
  "knexObject (trigger r s) = knexObject s"
  "pingFailureCount (trigger r s) = pingFailureCount s"
  "pingFailureMax (trigger r s) = pingFailureMax s"
  by (simp_all add: trigger_def closeGracefully_def emit_def)

lemma emit_fields:
  "dbFailureCount (emit es s) = dbFailureCount s"
  "dbFailureMax (emit es s) = dbFailureMax s"
  "knexObject (emit es s) = knexObject s"
  "waitingForExit (emit es s) = waitingForExit s"
  "pingFailureCount (emit es s) = pingFailureCount s"
  "pingFailureMax (emit es s) = pingFailureMax s"
  by (simp_all add: emit_def)

lemma reasonsOf_append: "reasonsOf (xs @ ys) = reasonsOf xs @ reasonsOf ys"
  by (induction xs) (simp_all split: option.splits)

lemma reasons_emit: "reasons (emit es s) = reasons s @ reasonsOf es"
  by (simp add: reasons_def emit_def reasonsOf_append)

lemma reasonOf_simps:
  "reasonOf (Debug a) = None"
  "reasonOf (Error a) = None"
  "reasonOf (ClearTimeout k) = None"
  "reasonOf (Launch c) = None"
  "reasonOf (Deadline d) = None"
  "reasonOf (Info [S ''> All timeouts cleared'']) = None"
  "reasonOf (Info [S ''Gracefully shutting down from '', S r, S ''...'']) = Some r"
  by (simp_all add: reasonOf_def)

lemma reasonsOf_clear: "reasonsOf (map (ClearTimeout \<circ> f) ks) = []"
  by (induction ks) (simp_all add: reasonOf_simps)

lemma reasonsOf_launch: "reasonsOf (map Launch cs) = []"
  by (induction cs) (simp_all add: reasonOf_simps)

lemma reasons_trigger:
  "\<not> waitingForExit s \<Longrightarrow> reasons (trigger r s) = reasons s @ [r]"
  by (simp add: trigger_def closeGracefully_def reasons_def emit_def reasonsOf_append
        reasonOf_simps reasonsOf_clear reasonsOf_launch)

lemma exits_append: "exits (xs @ ys) = exits xs @ exits ys"
  by (induction xs rule: exits.induct) simp_all

lemma exits_clear: "exits (map (ClearTimeout \<circ> f) ks) = []"
  by (induction ks) simp_all

lemma exits_launch: "exits (map Launch cs) = []"
  by (induction cs) simp_all

lemma exits_trigger: "exits (trace (trigger r s)) = exits (trace s)"
  by (simp add: trigger_def closeGracefully_def emit_def exits_append exits_clear exits_launch)

lemma launched_append: "launched (xs @ ys) = launched xs @ launched ys"
  by (induction xs rule: launched.induct) simp_all

lemma launched_clear: "launched (map (ClearTimeout \<circ> f) ks) = []"
  by (induction ks) simp_all

lemma launched_launch: "launched (map Launch cs) = cs"
  by (induction cs) simp_all

lemma launched_trigger:
  "\<not> waitingForExit s \<Longrightarrow>
     launched (trace (trigger r s)) = launched (trace s) @ teardownActions s"
  by (simp add: trigger_def closeGracefully_def emit_def launched_append launched_clear
        launched_launch)


lemma teardownRuns_emit: "teardownRuns (emit es s) = teardownRuns s + length (filter isDeadline es)"
  by (simp add: teardownRuns_def emit_def)

lemma armed_append: "armed (xs @ ys) = armed xs @ armed ys"
  by (induction xs rule: armed.induct) simp_all

lemma armed_clear: "armed (map (ClearTimeout \<circ> f) ks) = []"
  by (induction ks) simp_all

lemma armed_launch: "armed (map Launch cs) = []"
  by (induction cs) simp_all

lemma delays_clear: "delays (map (ClearTimeout \<circ> f) ks) = []"
  by (induction ks) simp_all

lemma delays_launch: "delays (map Launch cs) = []"
  by (induction cs) simp_all

lemma quiet_trigger:
  "armed (trace (trigger r s)) = armed (trace s)"
  "delays (trace (trigger r s)) = delays (trace s)"
  by (simp_all add: trigger_def closeGracefully_def emit_def armed_append armed_clear
        armed_launch delays_append delays_clear delays_launch)

lemma trace_trigger_keeps: "e \<in> set (trace s) \<Longrightarrow> e \<in> set (trace (trigger r s))"
  by (simp add: trigger_def closeGracefully_def emit_def)

section \<open>Idempotent shutdown\<close>

lemma closeGracefully_latched: "waitingForExit s \<Longrightarrow> closeGracefully signal s = s"
  by (simp add: closeGracefully_def)

lemma trigger_latched: "waitingForExit s \<Longrightarrow> trigger signal s = s"
  by (simp add: trigger_def closeGracefully_latched)

lemma trigger_sets_latch: "waitingForExit (trigger signal s)"
  by (simp add: trigger_def)

lemma fold_trigger_latched: "waitingForExit s \<Longrightarrow> fold trigger rs s = s"
  by (induction rs) (simp_all add: trigger_latched)

lemma teardownRuns_trigger:
  "\<not> waitingForExit s \<Longrightarrow> teardownRuns (trigger r s) = Suc (teardownRuns s)"
  by (simp add: trigger_def closeGracefully_def teardownRuns_def emit_def)

lemma teardownEvents_trigger:
  "\<not> waitingForExit s \<Longrightarrow>
     teardownEvents (trigger r s) =
       teardownEvents s @ map ClearTimeout (map fst (timeouts s)) @
       map Launch (teardownActions s) @ [Deadline 10000]"
  by (simp add: trigger_def closeGracefully_def teardownEvents_def emit_def filter_id_conv)

lemma onSignal_latched:
  "waitingForExit s \<Longrightarrow>
     waitingForExit (onSignal sig err s) \<and> teardownEvents (onSignal sig err s) = teardownEvents s"
  by (cases err) (simp_all add: onSignal_def closeGracefully_def emit_def teardownEvents_def)

lemma fold_onSignal_latched:
  "waitingForExit s \<Longrightarrow>
     teardownEvents (fold (\<lambda>c. onSignal (fst c) (snd c)) cs s) = teardownEvents s"
  by (induction cs arbitrary: s) (simp_all add: onSignal_latched)

text \<open>
  C1. From a state whose latch is open, the first trigger runs the teardown (every
  registered timer cleared, the teardown promises launched, the 10 s timer armed), and
  any further triggers, with any reasons, change nothing: the state after them is the
  state after the first, and the trace holds one teardown round more than before. The
  same holds when the later calls come through the process listeners, which log their
  argument first: they add no teardown event.
\<close>

theorem C1_shutdown_idempotent:
  assumes "\<not> waitingForExit s"
  shows "fold trigger rs (trigger r s) = trigger r s \<and>
         teardownRuns (fold trigger rs (trigger r s)) = Suc (teardownRuns s) \<and>
         teardownEvents (trigger r s) =
           teardownEvents s @ map ClearTimeout (map fst (timeouts s)) @
           map Launch (teardownActions s) @ [Deadline 10000] \<and>
         teardownEvents (fold (\<lambda>c. onSignal (fst c) (snd c)) cs (trigger r s)) =
           teardownEvents (trigger r s)"
proof -
  have same: "fold trigger rs (trigger r s) = trigger r s"
    by (rule fold_trigger_latched) (rule trigger_sets_latch)
  have listeners: "teardownEvents (fold (\<lambda>c. onSignal (fst c) (snd c)) cs (trigger r s)) =
           teardownEvents (trigger r s)"
    by (rule fold_onSignal_latched) (rule trigger_sets_latch)
  show ?thesis
    using assms same listeners by (simp add: teardownRuns_trigger teardownEvents_trigger)
qed

theorem C1_shutdown_idempotent_witness:
  "\<not> waitingForExit (serviceLoader (JObj [])) \<and>
   fold trigger [''SIGINT'', ''NODB''] (trigger ''SIGTERM'' (serviceLoader (JObj []))) =
     trigger ''SIGTERM'' (serviceLoader (JObj [])) \<and>
   teardownRuns (fold trigger [''SIGINT'', ''NODB''] (trigger ''SIGTERM'' (serviceLoader (JObj []))))
     = Suc 0"
proof -
  have open_latch: "\<not> waitingForExit (serviceLoader (JObj []))"
    by (simp add: serviceLoader_def)
  have zero: "teardownRuns (serviceLoader (JObj [])) = 0"
    by (simp add: serviceLoader_def teardownRuns_def)
  note inst = C1_shutdown_idempotent [OF open_latch, of "[''SIGINT'', ''NODB'']" "''SIGTERM''" "[]"]
  from inst have same: "fold trigger [''SIGINT'', ''NODB''] (trigger ''SIGTERM'' (serviceLoader (JObj []))) =
     trigger ''SIGTERM'' (serviceLoader (JObj []))"
    by (rule conjunct1)
  from inst have "teardownRuns (fold trigger [''SIGINT'', ''NODB''] (trigger ''SIGTERM'' (serviceLoader (JObj []))))
     = Suc (teardownRuns (serviceLoader (JObj [])))"
    by blast
  with zero have once: "teardownRuns (fold trigger [''SIGINT'', ''NODB''] (trigger ''SIGTERM'' (serviceLoader (JObj []))))
     = Suc 0"
    by (simp only:)
  from open_latch same once show ?thesis by (intro conjI)
qed

section \<open>The database monitor\<close>

lemma checkDb_backoff:
  assumes "knexObject s" and "int (dbFailureCount s) < dbFailureMax s"
  shows "fst (checkDb (ProbeFail m) s) = Again (2000 * Suc (dbFailureCount s))"
    and "dbFailureCount (snd (checkDb (ProbeFail m) s)) = Suc (dbFailureCount s)"
    and "dbFailureMax (snd (checkDb (ProbeFail m) s)) = dbFailureMax s"
    and "knexObject (snd (checkDb (ProbeFail m) s))"
    and "waitingForExit (snd (checkDb (ProbeFail m) s)) = waitingForExit s"
    and "teardownRuns (snd (checkDb (ProbeFail m) s)) = teardownRuns s"
    and "delays (trace (snd (checkDb (ProbeFail m) s))) =
           delays (trace s) @ [2000 * Suc (dbFailureCount s)]"
    and "trace (snd (checkDb (ProbeFail m) s)) =
           trace s @
           [Debug [S ''Check database''],
            Warn [S ''Error connecting to database - '', N (Suc (dbFailureCount s)),
                  S '' attempts - retying in '', N (2 * Suc (dbFailureCount s)), S ''s...''],
            Delay (2000 * Suc (dbFailureCount s))]"
    and "reasons (snd (checkDb (ProbeFail m) s)) = reasons s"
    and "armed (trace (snd (checkDb (ProbeFail m) s))) = armed (trace s)"
  using assms
  by (simp_all add: checkDb_def Let_def emit_def teardownRuns_def delays_append
        reasons_def reasonsOf_append reasonOf_def armed_append)

lemma checkDb_escalates:
  assumes "knexObject s" and "\<not> int (dbFailureCount s) < dbFailureMax s"
  shows "checkDb (ProbeFail m) s =
           (Escalated,
            trigger ''NODB''
              (emit [Debug [S ''Check database''],
                     Error [S ''Error connecting to database: '', S m]] s))"
  using assms by (simp add: checkDb_def Let_def emit_def trigger_def)

lemma checkDb_success:
  assumes "knexObject s"
  shows "fst (checkDb ProbeOk s) = Scheduled ''checkDb'' (dbFrequency s)"
    and "dbFailureCount (snd (checkDb ProbeOk s)) = 0"
    and "map_of (timeouts (snd (checkDb ProbeOk s))) ''checkDb'' = Some (CbCheckDb, dbFrequency s)"
    and "trace (snd (checkDb ProbeOk s)) =
           trace s @ [Debug [S ''Check database'']] @
           (if dbFailing s then [Info [S ''Recovered db!'']] else []) @
           [SetTimeout ''checkDb'' (dbFrequency s)]"
    and "armed (trace (snd (checkDb ProbeOk s))) = armed (trace s) @ [(''checkDb'', dbFrequency s)]"
    and "delays (trace (snd (checkDb ProbeOk s))) = delays (trace s)"
  using assms
  by (simp_all add: checkDb_def Let_def emit_def update_conv' armed_append delays_append)

lemma runCheckDb_backoff_step:
  assumes "knexObject s" and "int (dbFailureCount s) < dbFailureMax s"
  shows "runCheckDb (ProbeFail m # ps) s = runCheckDb ps (snd (checkDb (ProbeFail m) s))"
  using checkDb_backoff(1) [OF assms, of m]
  by (cases "checkDb (ProbeFail m) s") simp

lemma runCheckDb_escalation_step:
  assumes "knexObject s" and "\<not> int (dbFailureCount s) < dbFailureMax s"
  shows "runCheckDb (ProbeFail m # ps) s =
           trigger ''NODB''
              (emit [Debug [S ''Check database''],
                     Error [S ''Error connecting to database: '', S m]] s)"
  by (simp add: checkDb_escalates [OF assms])

lemma runCheckDb_append:
  "runCheckDb (map ProbeFail ms @ ps) s = runCheckDb ps (runCheckDb (map ProbeFail ms) s)"
  if "knexObject s" and "int (dbFailureCount s) + int (length ms) \<le> dbFailureMax s"
  using that
proof (induction ms arbitrary: s)
  case Nil
  then show ?case by simp
next
  case (Cons m ms)
  then have below: "int (dbFailureCount s) < dbFailureMax s" by simp
  note step = checkDb_backoff [OF Cons.prems(1) below, of m]
  have "runCheckDb (map ProbeFail ms @ ps) (snd (checkDb (ProbeFail m) s)) =
        runCheckDb ps (runCheckDb (map ProbeFail ms) (snd (checkDb (ProbeFail m) s)))"
    using Cons.prems step by (intro Cons.IH) simp_all
  then show ?case
    using runCheckDb_backoff_step [OF Cons.prems(1) below] by simp
qed

lemma runCheckDb_streak:
  assumes "knexObject s" and "int (dbFailureCount s) + int (length ms) \<le> dbFailureMax s"
  shows "dbFailureCount (runCheckDb (map ProbeFail ms) s) = dbFailureCount s + length ms \<and>
         dbFailureMax (runCheckDb (map ProbeFail ms) s) = dbFailureMax s \<and>
         knexObject (runCheckDb (map ProbeFail ms) s) \<and>
         waitingForExit (runCheckDb (map ProbeFail ms) s) = waitingForExit s \<and>
         teardownRuns (runCheckDb (map ProbeFail ms) s) = teardownRuns s \<and>
         reasons (runCheckDb (map ProbeFail ms) s) = reasons s \<and>
         armed (trace (runCheckDb (map ProbeFail ms) s)) = armed (trace s) \<and>
         delays (trace (runCheckDb (map ProbeFail ms) s)) =
           delays (trace s) @ map (\<lambda>i. 2000 * (dbFailureCount s + Suc i)) [0..<length ms]"
  using assms
proof (induction ms arbitrary: s)
  case Nil
  then show ?case by simp
next
  case (Cons m ms)
  then have below: "int (dbFailureCount s) < dbFailureMax s" by simp
  note step = checkDb_backoff [OF Cons.prems(1) below, of m]
  let ?s' = "snd (checkDb (ProbeFail m) s)"
  have run: "runCheckDb (map ProbeFail (m # ms)) s = runCheckDb (map ProbeFail ms) ?s'"
    using runCheckDb_backoff_step [OF Cons.prems(1) below] by simp
  have ih: "dbFailureCount (runCheckDb (map ProbeFail ms) ?s') = dbFailureCount ?s' + length ms \<and>
         dbFailureMax (runCheckDb (map ProbeFail ms) ?s') = dbFailureMax ?s' \<and>
         knexObject (runCheckDb (map ProbeFail ms) ?s') \<and>
         waitingForExit (runCheckDb (map ProbeFail ms) ?s') = waitingForExit ?s' \<and>
         teardownRuns (runCheckDb (map ProbeFail ms) ?s') = teardownRuns ?s' \<and>
         reasons (runCheckDb (map ProbeFail ms) ?s') = reasons ?s' \<and>
         armed (trace (runCheckDb (map ProbeFail ms) ?s')) = armed (trace ?s') \<and>
         delays (trace (runCheckDb (map ProbeFail ms) ?s')) =
           delays (trace ?s') @ map (\<lambda>i. 2000 * (dbFailureCount ?s' + Suc i)) [0..<length ms]"
    using Cons.prems step by (intro Cons.IH) simp_all
  have front: "map (\<lambda>i. 2000 * (dbFailureCount s + Suc i)) [0..<length (m # ms)] =
               2000 * Suc (dbFailureCount s) #
               map (\<lambda>i. 2000 * (Suc (dbFailureCount s) + Suc i)) [0..<length ms]"
    by (simp add: map_upt_Suc del: upt_Suc)
  show ?case
    unfolding run front using ih step by simp
qed

lemma teardownRuns_emit_logs:
  "teardownRuns (emit [Debug a, Error b] s) = teardownRuns s"
  by (simp add: teardownRuns_def emit_def)

lemma checkDb_after_escalation:
  assumes "knexObject t" and "\<not> int (dbFailureCount t) < dbFailureMax t" and "waitingForExit t"
  shows "knexObject (snd (checkDb (ProbeFail x) t)) \<and>
         \<not> int (dbFailureCount (snd (checkDb (ProbeFail x) t)))
              < dbFailureMax (snd (checkDb (ProbeFail x) t)) \<and>
         waitingForExit (snd (checkDb (ProbeFail x) t)) \<and>
         teardownRuns (snd (checkDb (ProbeFail x) t)) = teardownRuns t"
  using assms
  by (simp add: checkDb_escalates trigger_fields emit_fields trigger_latched
        teardownRuns_emit_logs)

lemma late_failures_after_escalation:
  assumes "knexObject t" and "\<not> int (dbFailureCount t) < dbFailureMax t" and "waitingForExit t"
  shows "teardownRuns (fold (\<lambda>p u. snd (checkDb p u)) (map ProbeFail late) t) = teardownRuns t"
  using assms
proof (induction late arbitrary: t)
  case Nil
  then show ?case by simp
next
  case (Cons x late)
  note after = checkDb_after_escalation [OF Cons.prems, of x]
  have "teardownRuns (fold (\<lambda>p u. snd (checkDb p u)) (map ProbeFail late)
                        (snd (checkDb (ProbeFail x) t)))
        = teardownRuns (snd (checkDb (ProbeFail x) t))"
    using after by (intro Cons.IH) simp_all
  with after show ?case by simp
qed

text \<open>
  C2, as the code has it. With \<open>failureMax\<close> the configured ceiling and the count at
  0, the first \<open>failureMax\<close> consecutive failed probes only back off, waiting 2000 ms
  times the count after each: no shutdown is triggered, no reason is recorded and the
  latch stays open. The next failed probe, number \<open>failureMax + 1\<close>, escalates: the
  error is logged with the probe's message, the shutdown is triggered with the reason
  \<open>NODB\<close>, one teardown round is added and the latch is closed. The escalating call
  waits for nothing and arms no timer, and whatever the database would answer
  afterwards is never asked for. Failed probes that would still reach \<open>checkDb\<close>
  afterwards add no teardown round either.
\<close>

theorem C2_escalation_on_failure_after_failureMax:
  assumes "knexObject s" and "\<not> waitingForExit s" and "dbFailureCount s = 0"
    and "dbFailureMax s = int (length ms)"
  shows "delays (trace (runCheckDb (map ProbeFail ms) s)) =
           delays (trace s) @ map (\<lambda>i. 2000 * Suc i) [0..<length ms] \<and>
         teardownRuns (runCheckDb (map ProbeFail ms) s) = teardownRuns s \<and>
         reasons (runCheckDb (map ProbeFail ms) s) = reasons s \<and>
         \<not> waitingForExit (runCheckDb (map ProbeFail ms) s) \<and>
         teardownRuns (runCheckDb (map ProbeFail (ms @ [m]) @ rest) s) = Suc (teardownRuns s) \<and>
         reasons (runCheckDb (map ProbeFail (ms @ [m]) @ rest) s) = reasons s @ [''NODB''] \<and>
         Error [S ''Error connecting to database: '', S m]
           \<in> set (trace (runCheckDb (map ProbeFail (ms @ [m]) @ rest) s)) \<and>
         waitingForExit (runCheckDb (map ProbeFail (ms @ [m]) @ rest) s) \<and>
         delays (trace (runCheckDb (map ProbeFail (ms @ [m]) @ rest) s)) =
           delays (trace (runCheckDb (map ProbeFail ms) s)) \<and>
         armed (trace (runCheckDb (map ProbeFail (ms @ [m]) @ rest) s)) = armed (trace s) \<and>
         runCheckDb (map ProbeFail (ms @ [m]) @ rest) s = runCheckDb (map ProbeFail (ms @ [m])) s \<and>
         teardownRuns (fold (\<lambda>p u. snd (checkDb p u)) (map ProbeFail late)
                         (runCheckDb (map ProbeFail (ms @ [m])) s)) = Suc (teardownRuns s)"
proof -
  let ?t = "runCheckDb (map ProbeFail ms) s"
  let ?logged = "emit [Debug [S ''Check database''],
                     Error [S ''Error connecting to database: '', S m]] ?t"
  let ?e = "trigger ''NODB'' ?logged"
  have room: "int (dbFailureCount s) + int (length ms) \<le> dbFailureMax s"
    using assms by simp
  note streak = runCheckDb_streak [OF assms(1) room]
  have waits: "delays (trace ?t) = delays (trace s) @ map (\<lambda>i. 2000 * Suc i) [0..<length ms]"
    using streak assms(3) by simp
  have knex: "knexObject ?t" using streak by simp
  have full: "\<not> int (dbFailureCount ?t) < dbFailureMax ?t"
    using streak assms by simp
  have "open": "\<not> waitingForExit ?t" using streak assms by simp
  have quiet: "teardownRuns ?t = teardownRuns s" using streak by simp
  have silent: "reasons ?t = reasons s" using streak by simp
  have timers: "armed (trace ?t) = armed (trace s)" using streak by simp
  have esc: "runCheckDb (map ProbeFail (ms @ [m]) @ rest) s = ?e" for rest
    using runCheckDb_append [OF assms(1) room, of "ProbeFail m # rest"]
      runCheckDb_escalation_step [OF knex full, of m rest]
    by simp
  have runs: "teardownRuns ?e = Suc (teardownRuns s)"
    using "open" quiet
    by (simp add: teardownRuns_trigger emit_fields teardownRuns_emit_logs)
  have why: "reasons ?e = reasons s @ [''NODB'']"
    using "open" silent
    by (simp add: reasons_trigger emit_fields reasons_emit reasonOf_simps)
  have logged: "Error [S ''Error connecting to database: '', S m] \<in> set (trace ?e)"
    by (rule trace_trigger_keeps) (simp add: emit_def)
  have no_wait: "delays (trace ?e) = delays (trace ?t)"
    by (simp add: quiet_trigger) (simp add: emit_def delays_append)
  have no_timer: "armed (trace ?e) = armed (trace s)"
    using timers by (simp add: quiet_trigger) (simp add: emit_def armed_append)
  have latch: "waitingForExit ?e" by (rule trigger_sets_latch)
  have e_knex: "knexObject ?e" using knex by (simp add: trigger_fields emit_fields)
  have e_full: "\<not> int (dbFailureCount ?e) < dbFailureMax ?e"
    using full by (simp add: trigger_fields emit_fields)
  have stale: "teardownRuns (fold (\<lambda>p u. snd (checkDb p u)) (map ProbeFail late) ?e)
                 = teardownRuns ?e"
    by (rule late_failures_after_escalation [OF e_knex e_full latch])
  have same: "runCheckDb (map ProbeFail (ms @ [m]) @ rest) s = runCheckDb (map ProbeFail (ms @ [m])) s"
    using esc [of rest] esc [of "[]"] by simp
  have last: "runCheckDb (map ProbeFail (ms @ [m])) s = ?e"
    using esc [of "[]"] by simp
  show ?thesis
    unfolding esc last
    using waits quiet silent "open" runs why logged latch no_wait no_timer stale
    by (intro conjI) simp_all
qed

lemma db_configured:
  "knexObject (projr (chain_db cfg opts s))"
  "waitingForExit (projr (chain_db cfg opts s)) = waitingForExit s"
  "dbFailureCount (projr (chain_db cfg opts s)) = dbFailureCount s"
  "dbFailureMax (projr (chain_db cfg opts s)) = numOr opts failureMax (dbFailureMax s)"
  "teardownRuns (projr (chain_db cfg opts s)) = teardownRuns s"
  "promiseOrder (projr (chain_db cfg opts s)) = promiseOrder s"
  by (simp_all add: chain_db_def Let_def emit_def teardownRuns_def)

lemma fresh_loader:
  "\<not> waitingForExit (serviceLoader a)"
  "dbFailureCount (serviceLoader a) = 0"
  "pingFailureCount (serviceLoader a) = 0"
  "teardownRuns (serviceLoader a) = 0"
  "promiseOrder (serviceLoader a) = []"
  "dbFailureMax (serviceLoader a) = 8"
  by (simp_all add: serviceLoader_def teardownRuns_def)

theorem C2_escalation_on_failure_after_failureMax_witness:
  "knexObject (projr (chain_db (''pg://localhost'', ''app'')
       (Some \<lparr>pgUrl = None, pgDatabase = None, failureMax = Some 2, frequency = None\<rparr>)
       (serviceLoader (JObj [])))) \<and>
   \<not> waitingForExit (projr (chain_db (''pg://localhost'', ''app'')
       (Some \<lparr>pgUrl = None, pgDatabase = None, failureMax = Some 2, frequency = None\<rparr>)
       (serviceLoader (JObj [])))) \<and>
   dbFailureCount (projr (chain_db (''pg://localhost'', ''app'')
       (Some \<lparr>pgUrl = None, pgDatabase = None, failureMax = Some 2, frequency = None\<rparr>)
       (serviceLoader (JObj [])))) = 0 \<and>
   dbFailureMax (projr (chain_db (''pg://localhost'', ''app'')
       (Some \<lparr>pgUrl = None, pgDatabase = None, failureMax = Some 2, frequency = None\<rparr>)
       (serviceLoader (JObj [])))) = int (length [''down'', ''down'']) \<and>
   teardownRuns (runCheckDb
       (map ProbeFail ([''down'', ''down''] @ [''down'']) @ [ProbeFail ''down'', ProbeOk])
       (projr (chain_db (''pg://localhost'', ''app'')
          (Some \<lparr>pgUrl = None, pgDatabase = None, failureMax = Some 2, frequency = None\<rparr>)
          (serviceLoader (JObj []))))) = Suc 0"
proof -
  let ?s = "projr (chain_db (''pg://localhost'', ''app'')
       (Some \<lparr>pgUrl = None, pgDatabase = None, failureMax = Some 2, frequency = None\<rparr>)
       (serviceLoader (JObj [])))"
  have h1: "knexObject ?s" by (rule db_configured)
  have h2: "\<not> waitingForExit ?s" by (simp add: db_configured fresh_loader)
  have h3: "dbFailureCount ?s = 0" by (simp add: db_configured fresh_loader)
  have h4: "dbFailureMax ?s = int (length [''down'', ''down''])"
    by (simp add: db_configured numOr_def)
  have zero: "teardownRuns ?s = 0" by (simp add: db_configured fresh_loader)
  from C2_escalation_on_failure_after_failureMax
         [OF h1 h2 h3 h4, of "''down''" "[ProbeFail ''down'', ProbeOk]" "[]"]
  have "teardownRuns (runCheckDb
       (map ProbeFail ([''down'', ''down''] @ [''down'']) @ [ProbeFail ''down'', ProbeOk]) ?s)
        = Suc (teardownRuns ?s)"
    by blast
  with zero have "teardownRuns (runCheckDb
       (map ProbeFail ([''down'', ''down''] @ [''down'']) @ [ProbeFail ''down'', ProbeOk]) ?s)
        = Suc 0"
    by (simp only:)
  with h1 h2 h3 h4 show ?thesis by (intro conjI)
qed

text \<open>
  The claim as written fails: with \<open>failureMax = 2\<close>, after exactly two consecutive
  failed probes no shutdown has been triggered; the monitor waits 4 s for its third
  probe.
\<close>

theorem C2_counterexample:
  "dbFailureMax (projr (chain_db (''pg://localhost'', ''app'')
       (Some \<lparr>pgUrl = None, pgDatabase = None, failureMax = Some 2, frequency = None\<rparr>)
       (serviceLoader (JObj [])))) = 2 \<and>
   teardownRuns (runCheckDb [ProbeFail ''down'', ProbeFail ''down'']
       (projr (chain_db (''pg://localhost'', ''app'')
          (Some \<lparr>pgUrl = None, pgDatabase = None, failureMax = Some 2, frequency = None\<rparr>)
          (serviceLoader (JObj []))))) = 0 \<and>
   \<not> waitingForExit (runCheckDb [ProbeFail ''down'', ProbeFail ''down'']
       (projr (chain_db (''pg://localhost'', ''app'')
          (Some \<lparr>pgUrl = None, pgDatabase = None, failureMax = Some 2, frequency = None\<rparr>)
          (serviceLoader (JObj []))))) \<and>
   delays (trace (runCheckDb [ProbeFail ''down'', ProbeFail ''down'']
       (projr (chain_db (''pg://localhost'', ''app'')
          (Some \<lparr>pgUrl = None, pgDatabase = None, failureMax = Some 2, frequency = None\<rparr>)
          (serviceLoader (JObj [])))))) = [2000, 4000]"
  by (simp add: chain_db_def numOr_def strOr_def serviceLoader_def checkDb_def Let_def
        emit_def teardownRuns_def dbReadiness_def)

section \<open>The ping monitor\<close>

lemma earliest_member: "earliest r qs \<in> set (r # qs)"
  by (induction qs arbitrary: r) auto

lemma promiseAll_rejects_iff:
  "(\<exists>t e. promiseAll ps = Rejects t e) \<longleftrightarrow> rejections ps \<noteq> []"
  by (cases "rejections ps")
     (auto simp: promiseAll_def split: prod.splits)

lemma promiseAll_rejection_member:
  "promiseAll ps = Rejects t e \<Longrightarrow> (t, e) \<in> set (rejections ps)"
proof (cases "rejections ps")
  case Nil
  then show "promiseAll ps = Rejects t e \<Longrightarrow> ?thesis"
    by (simp add: promiseAll_def split: if_splits)
next
  case (Cons r rs)
  assume "promiseAll ps = Rejects t e"
  with Cons have "earliest r rs = (t, e)"
    by (simp add: promiseAll_def split: prod.splits)
  with earliest_member [of r rs] Cons show ?thesis by simp
qed

lemma rejections_member:
  "(t, e) \<in> set (rejections ps) \<longleftrightarrow> Rejects t e \<in> set ps"
  by (induction ps rule: rejections.induct) auto

lemma testHost_address:
  "testHost net (Some a) =
     Inr (case net (snd (hostPort a)) (fst (hostPort a)) of
            Connects t \<Rightarrow> Fulfils t a
          | Refused t \<Rightarrow> Rejects t a
          | Silent \<Rightarrow> Pending
          | Raised m \<Rightarrow> Rejects 0 m)"
  by (simp add: testHost_def)

lemma testHost_rejects:
  assumes "testHost net (Some a) = Inr (Rejects t e)"
  shows "(\<exists>u. net (snd (hostPort a)) (fst (hostPort a)) = Refused u \<and> e = a) \<or>
         net (snd (hostPort a)) (fst (hostPort a)) = Raised e"
  using assms by (simp add: testHost_def split: conn.splits)

lemma collect_addresses:
  "collect (map (testHost net) (map Some targets)) =
     Inr (map (\<lambda>a. projr (testHost net (Some a))) targets)"
  by (induction targets) (simp_all add: testHost_address)

lemma collect_null:
  "None \<in> set hostList \<Longrightarrow> collect (map (testHost net) hostList) = Inl nullSplit"
proof (induction hostList)
  case Nil
  then show ?case by simp
next
  case (Cons h hostList)
  show ?case
  proof (cases h)
    case None
    then show ?thesis by (simp add: testHost_def)
  next
    case (Some a)
    with Cons show ?thesis by (simp add: testHost_address)
  qed
qed

lemma cycle_rejection_is_target:
  assumes "promiseAll (map (\<lambda>a. projr (testHost net (Some a))) targets) = Rejects t e"
  shows "\<exists>a \<in> set targets. testHost net (Some a) = Inr (Rejects t e)"
proof -
  from assms
  have "(t, e) \<in> set (rejections (map (\<lambda>a. projr (testHost net (Some a))) targets))"
    by (rule promiseAll_rejection_member)
  then have "Rejects t e \<in> set (map (\<lambda>a. projr (testHost net (Some a))) targets)"
    by (simp only: rejections_member)
  then obtain a where a: "a \<in> set targets" "projr (testHost net (Some a)) = Rejects t e"
    by auto
  then have "testHost net (Some a) = Inr (Rejects t e)"
    by (simp add: testHost_address)
  with a(1) show ?thesis by blast
qed

lemma pingHosts_throws:
  assumes "collect (map (testHost net) hostList) = Inl e"
  shows "pingHosts net hostList s =
           (Throws e, emit [Debug [S ''Ping hosts: '', S (joinWith '', '' hostList)]] s)"
  using assms by (simp add: pingHosts_def Let_def)

lemma pingHosts_backoff:
  assumes "collect (map (testHost net) hostList) = Inr tests"
    and "promiseAll tests = Rejects t e"
    and "int (pingFailureCount s) < pingFailureMax s"
  shows "fst (pingHosts net hostList s) = Again (2000 * Suc (pingFailureCount s))"
    and "pingFailureCount (snd (pingHosts net hostList s)) = Suc (pingFailureCount s)"
    and "pingFailureMax (snd (pingHosts net hostList s)) = pingFailureMax s"
    and "pingFailing (snd (pingHosts net hostList s)) = Some e"
    and "waitingForExit (snd (pingHosts net hostList s)) = waitingForExit s"
    and "teardownRuns (snd (pingHosts net hostList s)) = teardownRuns s"
    and "trace (snd (pingHosts net hostList s)) =
           trace s @
           [Debug [S ''Ping hosts: '', S (joinWith '', '' hostList)],
            Warn [S ''Unable to ping '', S e, S '' - '', N (Suc (pingFailureCount s)),
                  S '' attempts - retying in '', N (2 * Suc (pingFailureCount s)), S ''s...''],
            Delay (2000 * Suc (pingFailureCount s))]"
  using assms
  by (simp_all add: pingHosts_def Let_def emit_def teardownRuns_def)

lemma pingHosts_escalates:
  assumes "collect (map (testHost net) hostList) = Inr tests"
    and "promiseAll tests = Rejects t e"
    and "\<not> int (pingFailureCount s) < pingFailureMax s"
  shows "pingHosts net hostList s =
           (Escalated,
            trigger ''NOHOST''
              (emit [Debug [S ''Ping hosts: '', S (joinWith '', '' hostList)],
                     Error [S ''Error connecting to '', S e]] s))"
  using assms by (simp add: pingHosts_def Let_def emit_def trigger_def)

lemma pingHosts_success:
  assumes "collect (map (testHost net) hostList) = Inr tests"
    and "promiseAll tests = Fulfils t vs"
  shows "fst (pingHosts net hostList s) = Scheduled ''pingHosts'' (pingFrequency s)"
    and "pingFailureCount (snd (pingHosts net hostList s)) = 0"
    and "map_of (timeouts (snd (pingHosts net hostList s))) ''pingHosts''
           = Some (CbPingHosts hostList, pingFrequency s)"
    and "armed (trace (snd (pingHosts net hostList s)))
           = armed (trace s) @ [(''pingHosts'', pingFrequency s)]"
    and "delays (trace (snd (pingHosts net hostList s))) = delays (trace s)"
  using assms
  by (simp_all add: pingHosts_def Let_def emit_def update_conv' armed_append delays_append
        split: option.splits)

text \<open>
  C6, as the code has it. A \<open>null\<close> among the hosts makes \<open>pingHosts\<close> throw
  before anything is counted. Otherwise, in a cycle in which the connection to some
  target fails, the error of the cycle is that of one failing target \<open>a\<close>, whatever
  the number of failing targets; its message is the address \<open>a\<close> when the connection
  reported an error, and the message of the exception when \<open>createConnection\<close> threw.
  Below the ceiling the shared count grows by exactly one, the message is kept in
  \<open>pingFailing\<close> and written in the warning, and no shutdown is triggered. At the
  ceiling the count stays, the message is written in the logged error, and the
  shutdown is triggered with the fixed reason \<open>NOHOST\<close>.
\<close>

theorem C6_failed_cycle_counts_once:
  "(None \<in> set hostList \<longrightarrow>
      pingHosts net hostList s =
        (Throws nullSplit, emit [Debug [S ''Ping hosts: '', S (joinWith '', '' hostList)]] s)) \<and>
   (a0 \<in> set targets \<and> testHost net (Some a0) = Inr (Rejects t0 m0) \<longrightarrow>
      (\<exists>a t msg. a \<in> set targets \<and> testHost net (Some a) = Inr (Rejects t msg) \<and>
         ((\<exists>u. net (snd (hostPort a)) (fst (hostPort a)) = Refused u \<and> msg = a) \<or>
          net (snd (hostPort a)) (fst (hostPort a)) = Raised msg) \<and>
         (if int (pingFailureCount s) < pingFailureMax s
          then fst (pingHosts net (map Some targets) s) = Again (2000 * Suc (pingFailureCount s)) \<and>
               pingFailureCount (snd (pingHosts net (map Some targets) s))
                 = Suc (pingFailureCount s) \<and>
               pingFailing (snd (pingHosts net (map Some targets) s)) = Some msg \<and>
               trace (snd (pingHosts net (map Some targets) s)) =
                 trace s @
                 [Debug [S ''Ping hosts: '', S (joinWith '', '' (map Some targets))],
                  Warn [S ''Unable to ping '', S msg, S '' - '', N (Suc (pingFailureCount s)),
                        S '' attempts - retying in '', N (2 * Suc (pingFailureCount s)),
                        S ''s...''],
                  Delay (2000 * Suc (pingFailureCount s))] \<and>
               reasons (snd (pingHosts net (map Some targets) s)) = reasons s
          else pingHosts net (map Some targets) s =
                 (Escalated,
                  trigger ''NOHOST''
                    (emit [Debug [S ''Ping hosts: '', S (joinWith '', '' (map Some targets))],
                           Error [S ''Error connecting to '', S msg]] s)) \<and>
               pingFailureCount (snd (pingHosts net (map Some targets) s)) = pingFailureCount s \<and>
               (\<not> waitingForExit s \<longrightarrow>
                  reasons (snd (pingHosts net (map Some targets) s)) = reasons s @ [''NOHOST'']))))"
proof (intro conjI impI)
  assume "None \<in> set hostList"
  then show "pingHosts net hostList s =
        (Throws nullSplit, emit [Debug [S ''Ping hosts: '', S (joinWith '', '' hostList)]] s)"
    by (simp add: pingHosts_throws collect_null)
next
  let ?tests = "map (\<lambda>a. projr (testHost net (Some a))) targets"
  let ?hosts = "map Some targets"
  assume fails: "a0 \<in> set targets \<and> testHost net (Some a0) = Inr (Rejects t0 m0)"
  have tests: "collect (map (testHost net) ?hosts) = Inr ?tests"
    by (rule collect_addresses)
  from fails have "Rejects t0 m0 \<in> set ?tests" by force
  then have "rejections ?tests \<noteq> []"
    using rejections_member [of t0 m0 ?tests] by auto
  then obtain t msg where all: "promiseAll ?tests = Rejects t msg"
    using promiseAll_rejects_iff [of ?tests] by blast
  from cycle_rejection_is_target [OF all]
  obtain a where target: "a \<in> set targets" "testHost net (Some a) = Inr (Rejects t msg)"
    by blast
  note kind = testHost_rejects [OF target(2)]
  show "\<exists>a t msg. a \<in> set targets \<and> testHost net (Some a) = Inr (Rejects t msg) \<and>
         ((\<exists>u. net (snd (hostPort a)) (fst (hostPort a)) = Refused u \<and> msg = a) \<or>
          net (snd (hostPort a)) (fst (hostPort a)) = Raised msg) \<and>
         (if int (pingFailureCount s) < pingFailureMax s
          then fst (pingHosts net ?hosts s) = Again (2000 * Suc (pingFailureCount s)) \<and>
               pingFailureCount (snd (pingHosts net ?hosts s)) = Suc (pingFailureCount s) \<and>
               pingFailing (snd (pingHosts net ?hosts s)) = Some msg \<and>
               trace (snd (pingHosts net ?hosts s)) =
                 trace s @
                 [Debug [S ''Ping hosts: '', S (joinWith '', '' ?hosts)],
                  Warn [S ''Unable to ping '', S msg, S '' - '', N (Suc (pingFailureCount s)),
                        S '' attempts - retying in '', N (2 * Suc (pingFailureCount s)),
                        S ''s...''],
                  Delay (2000 * Suc (pingFailureCount s))] \<and>
               reasons (snd (pingHosts net ?hosts s)) = reasons s
          else pingHosts net ?hosts s =
                 (Escalated,
                  trigger ''NOHOST''
                    (emit [Debug [S ''Ping hosts: '', S (joinWith '', '' ?hosts)],
                           Error [S ''Error connecting to '', S msg]] s)) \<and>
               pingFailureCount (snd (pingHosts net ?hosts s)) = pingFailureCount s \<and>
               (\<not> waitingForExit s \<longrightarrow>
                  reasons (snd (pingHosts net ?hosts s)) = reasons s @ [''NOHOST'']))"
  proof (cases "int (pingFailureCount s) < pingFailureMax s")
    case True
    note step = pingHosts_backoff [OF tests all True]
    have "reasons (snd (pingHosts net ?hosts s)) = reasons s"
      by (simp add: reasons_def step(7) reasonsOf_append reasonOf_def)
    with target kind step True show ?thesis
      by (intro exI [of _ a] exI [of _ t] exI [of _ msg]) simp
  next
    case False
    note esc = pingHosts_escalates [OF tests all False]
    have count: "pingFailureCount (snd (pingHosts net ?hosts s)) = pingFailureCount s"
      by (simp add: esc trigger_fields emit_fields)
    have why: "\<not> waitingForExit s \<longrightarrow>
                 reasons (snd (pingHosts net ?hosts s)) = reasons s @ [''NOHOST'']"
      by (simp add: esc reasons_trigger emit_fields reasons_emit reasonOf_simps)
    from target kind esc count why False show ?thesis
      by (intro exI [of _ a] exI [of _ t] exI [of _ msg]) simp
  qed
qed

theorem C6_failed_cycle_counts_once_witness:
  "None \<in> set [Some ''a:1'', None] \<and>
   fst (pingHosts downA [Some ''a:1'', None] (serviceLoader (JObj []))) = Throws nullSplit \<and>
   ''a:1'' \<in> set [''a:1'', ''b:2''] \<and>
   testHost downA (Some ''a:1'') = Inr (Rejects 5 ''a:1'') \<and>
   pingFailureCount (snd (pingHosts downA (map Some [''a:1'', ''b:2'']) (serviceLoader (JObj []))))
     = Suc 0"
proof -
  have h0: "None \<in> set [Some ''a:1'', None]" by simp
  have h1: "''a:1'' \<in> set [''a:1'', ''b:2'']" by simp
  have h2: "testHost downA (Some ''a:1'') = Inr (Rejects 5 ''a:1'')"
    by (simp add: testHost_def hostPort_def downA_def)
  have below: "int (pingFailureCount (serviceLoader (JObj []))) < pingFailureMax (serviceLoader (JObj []))"
    by (simp add: serviceLoader_def)
  have zero: "pingFailureCount (serviceLoader (JObj [])) = 0"
    by (simp add: serviceLoader_def)
  note inst = C6_failed_cycle_counts_once
    [where hostList = "[Some ''a:1'', None]" and net = downA and s = "serviceLoader (JObj [])"
       and ?a0.0 = "''a:1''" and targets = "[''a:1'', ''b:2'']" and ?t0.0 = 5 and ?m0.0 = "''a:1''"]
  from inst h0 have thrown:
    "fst (pingHosts downA [Some ''a:1'', None] (serviceLoader (JObj []))) = Throws nullSplit"
    by simp
  from inst h1 h2 below
  have "pingFailureCount (snd (pingHosts downA (map Some [''a:1'', ''b:2'']) (serviceLoader (JObj []))))
          = Suc (pingFailureCount (serviceLoader (JObj [])))"
    by (simp only: if_True) blast
  with zero have "pingFailureCount (snd (pingHosts downA (map Some [''a:1'', ''b:2'']) (serviceLoader (JObj []))))
          = Suc 0"
    by (simp only:)
  with h0 thrown h1 h2 show ?thesis by (intro conjI)
qed

text \<open>
  The claim as written fails on the reason: with targets \<open>a:1\<close> and \<open>b:2\<close>, a ceiling
  of 2 and \<open>a:1\<close> refusing every connection, the shutdown is triggered in the third
  failed cycle with the reason \<open>NOHOST\<close>, which does not name \<open>a:1\<close>; the target is
  named in the logged error only, and the third failed cycle leaves the count at 2.
  It fails on the log message too when \<open>createConnection\<close> throws: with the target
  \<open>b:99999\<close> the message kept and logged is that of the RangeError, not the target.
\<close>

theorem C6_counterexample:
  "reasons (runPingHosts [downA, downA, downA] [Some ''a:1'', Some ''b:2'']
              ((serviceLoader (JObj []))\<lparr>pingFailureMax := 2\<rparr>)) = [''NOHOST''] \<and>
   reasons (runPingHosts [downA, downA] [Some ''a:1'', Some ''b:2'']
              ((serviceLoader (JObj []))\<lparr>pingFailureMax := 2\<rparr>)) = [] \<and>
   pingFailureCount (runPingHosts [downA, downA] [Some ''a:1'', Some ''b:2'']
              ((serviceLoader (JObj []))\<lparr>pingFailureMax := 2\<rparr>)) = 2 \<and>
   pingFailureCount (runPingHosts [downA, downA, downA] [Some ''a:1'', Some ''b:2'']
              ((serviceLoader (JObj []))\<lparr>pingFailureMax := 2\<rparr>)) = 2 \<and>
   Error [S ''Error connecting to '', S ''a:1'']
     \<in> set (trace (runPingHosts [downA, downA, downA] [Some ''a:1'', Some ''b:2'']
              ((serviceLoader (JObj []))\<lparr>pingFailureMax := 2\<rparr>))) \<and>
   pingFailing (snd (pingHosts badPort [Some ''a:1'', Some ''b:99999''] (serviceLoader (JObj []))))
     = Some ''RangeError: port should be >= 0 and < 65536''"
  by (simp add: serviceLoader_def pingHosts_def promiseAll_def testHost_def hostPort_def
        downA_def badPort_def Let_def emit_def closeGracefully_def teardownActions_def
        reasons_def reasonOf_def)

section \<open>Backoff\<close>

lemma runPingHosts_backoff_step:
  assumes "collect (map (testHost net) hostList) = Inr tests"
    and "promiseAll tests = Rejects t e"
    and "int (pingFailureCount s) < pingFailureMax s"
  shows "runPingHosts (net # nets) hostList s =
           runPingHosts nets hostList (snd (pingHosts net hostList s))"
  using pingHosts_backoff(1) [OF assms]
  by (cases "pingHosts net hostList s") simp

text \<open>A cycle that fails: every address is a string and some connection is rejected.\<close>

lemma runPingHosts_streak:
  assumes "\<forall>net \<in> set nets. \<exists>tests t e.
             collect (map (testHost net) hostList) = Inr tests \<and> promiseAll tests = Rejects t e"
    and "int (pingFailureCount s) + int (length nets) \<le> pingFailureMax s"
  shows "pingFailureCount (runPingHosts nets hostList s) = pingFailureCount s + length nets \<and>
         pingFailureMax (runPingHosts nets hostList s) = pingFailureMax s \<and>
         armed (trace (runPingHosts nets hostList s)) = armed (trace s) \<and>
         delays (trace (runPingHosts nets hostList s)) =
           delays (trace s) @ map (\<lambda>i. 2000 * (pingFailureCount s + Suc i)) [0..<length nets]"
  using assms
proof (induction nets arbitrary: s)
  case Nil
  then show ?case by simp
next
  case (Cons net nets)
  then have below: "int (pingFailureCount s) < pingFailureMax s" by simp
  from Cons.prems(1) obtain tests t e
    where tests: "collect (map (testHost net) hostList) = Inr tests"
      and all: "promiseAll tests = Rejects t e"
    by auto
  note step = pingHosts_backoff [OF tests all below]
  let ?s' = "snd (pingHosts net hostList s)"
  have run: "runPingHosts (net # nets) hostList s = runPingHosts nets hostList ?s'"
    by (rule runPingHosts_backoff_step [OF tests all below])
  have ih: "pingFailureCount (runPingHosts nets hostList ?s') = pingFailureCount ?s' + length nets \<and>
         pingFailureMax (runPingHosts nets hostList ?s') = pingFailureMax ?s' \<and>
         armed (trace (runPingHosts nets hostList ?s')) = armed (trace ?s') \<and>
         delays (trace (runPingHosts nets hostList ?s')) =
           delays (trace ?s') @ map (\<lambda>i. 2000 * (pingFailureCount ?s' + Suc i)) [0..<length nets]"
    using Cons.prems step(2,3) by (intro Cons.IH) simp_all
  have front: "map (\<lambda>i. 2000 * (pingFailureCount s + Suc i)) [0..<length (net # nets)] =
               2000 * Suc (pingFailureCount s) #
               map (\<lambda>i. 2000 * (Suc (pingFailureCount s) + Suc i)) [0..<length nets]"
    by (simp add: map_upt_Suc del: upt_Suc)
  have d: "delays (trace ?s') = delays (trace s) @ [2000 * Suc (pingFailureCount s)]"
    by (simp add: step(7) delays_append)
  have a: "armed (trace ?s') = armed (trace s)"
    by (simp add: step(7) armed_append)
  show ?case
    unfolding run front using ih step(2,3) d a by simp
qed

lemma checkDb_frequency: "dbFrequency (snd (checkDb p s)) = dbFrequency s"
  by (simp add: checkDb_def Let_def emit_def closeGracefully_def split: probe.splits)

lemma runCheckDb_frequency: "dbFrequency (runCheckDb ps s) = dbFrequency s"
proof (induction ps arbitrary: s)
  case Nil
  then show ?case by simp
next
  case (Cons p ps)
  obtain r s' where c: "checkDb p s = (r, s')" by force
  have "dbFrequency s' = dbFrequency s" using checkDb_frequency [of p s] c by simp
  then show ?case using Cons.IH [of s'] c by (cases r) simp_all
qed

lemma pingHosts_frequency: "pingFrequency (snd (pingHosts net hostList s)) = pingFrequency s"
  by (simp add: pingHosts_def Let_def emit_def closeGracefully_def
        split: settle.splits sum.splits)

lemma runPingHosts_frequency: "pingFrequency (runPingHosts nets hostList s) = pingFrequency s"
proof (induction nets arbitrary: s)
  case Nil
  then show ?case by simp
next
  case (Cons net nets)
  obtain r s' where c: "pingHosts net hostList s = (r, s')" by force
  have "pingFrequency s' = pingFrequency s" using pingHosts_frequency [of net hostList s] c by simp
  then show ?case using Cons.IH [of s'] c by (cases r) simp_all
qed

lemma sorted_backoff: "sorted (map (\<lambda>i. 2000 * (c + Suc i)) [0..<n])"
  by (induction n) (simp_all add: sorted_append)

text \<open>
  C9. In the database monitor, a streak of failed probes below the ceiling waits
  2000 ms times the new count after each, the count growing by one each time: the
  waits are 2000 ms times each count in turn, a non-decreasing sequence, and no timer
  is armed meanwhile. A successful probe then sets the count to 0 and arms the timer
  \<open>checkDb\<close> with the base frequency, without waiting. The ping monitor does the
  same over a streak of failed cycles, with its own count, and arms \<open>pingHosts\<close>
  with its own base frequency after a cycle in which every target connects.
\<close>

theorem C9_linear_backoff_and_reset:
  "(knexObject s \<and> int (dbFailureCount s) + int (length ms) \<le> dbFailureMax s \<longrightarrow>
      delays (trace (runCheckDb (map ProbeFail ms) s)) =
        delays (trace s) @ map (\<lambda>i. 2000 * (dbFailureCount s + Suc i)) [0..<length ms] \<and>
      sorted (map (\<lambda>i. 2000 * (dbFailureCount s + Suc i)) [0..<length ms]) \<and>
      armed (trace (runCheckDb (map ProbeFail ms) s)) = armed (trace s) \<and>
      dbFailureCount (runCheckDb (map ProbeFail ms) s) = dbFailureCount s + length ms \<and>
      fst (checkDb ProbeOk (runCheckDb (map ProbeFail ms) s)) = Scheduled ''checkDb'' (dbFrequency s) \<and>
      dbFailureCount (snd (checkDb ProbeOk (runCheckDb (map ProbeFail ms) s))) = 0 \<and>
      armed (trace (snd (checkDb ProbeOk (runCheckDb (map ProbeFail ms) s)))) =
        armed (trace s) @ [(''checkDb'', dbFrequency s)] \<and>
      map_of (timeouts (snd (checkDb ProbeOk (runCheckDb (map ProbeFail ms) s)))) ''checkDb''
        = Some (CbCheckDb, dbFrequency s) \<and>
      delays (trace (snd (checkDb ProbeOk (runCheckDb (map ProbeFail ms) s)))) =
        delays (trace (runCheckDb (map ProbeFail ms) s))) \<and>
   ((\<forall>net \<in> set nets. \<exists>tests t e.
        collect (map (testHost net) hostList) = Inr tests \<and> promiseAll tests = Rejects t e) \<and>
    int (pingFailureCount s) + int (length nets) \<le> pingFailureMax s \<and>
    collect (map (testHost good) hostList) = Inr oks \<and> promiseAll oks = Fulfils t vs \<longrightarrow>
      delays (trace (runPingHosts nets hostList s)) =
        delays (trace s) @ map (\<lambda>i. 2000 * (pingFailureCount s + Suc i)) [0..<length nets] \<and>
      sorted (map (\<lambda>i. 2000 * (pingFailureCount s + Suc i)) [0..<length nets]) \<and>
      armed (trace (runPingHosts nets hostList s)) = armed (trace s) \<and>
      pingFailureCount (runPingHosts nets hostList s) = pingFailureCount s + length nets \<and>
      fst (pingHosts good hostList (runPingHosts nets hostList s))
        = Scheduled ''pingHosts'' (pingFrequency s) \<and>
      pingFailureCount (snd (pingHosts good hostList (runPingHosts nets hostList s))) = 0 \<and>
      armed (trace (snd (pingHosts good hostList (runPingHosts nets hostList s)))) =
        armed (trace s) @ [(''pingHosts'', pingFrequency s)] \<and>
      map_of (timeouts (snd (pingHosts good hostList (runPingHosts nets hostList s)))) ''pingHosts''
        = Some (CbPingHosts hostList, pingFrequency s) \<and>
      delays (trace (snd (pingHosts good hostList (runPingHosts nets hostList s)))) =
        delays (trace (runPingHosts nets hostList s)))"
proof (intro conjI impI)
  assume db: "knexObject s \<and> int (dbFailureCount s) + int (length ms) \<le> dbFailureMax s"
  then have k: "knexObject s" and room: "int (dbFailureCount s) + int (length ms) \<le> dbFailureMax s"
    by simp_all
  note streak = runCheckDb_streak [OF k room]
  have knex: "knexObject (runCheckDb (map ProbeFail ms) s)" using streak by simp
  note ok = checkDb_success [OF knex]
  show "delays (trace (runCheckDb (map ProbeFail ms) s)) =
        delays (trace s) @ map (\<lambda>i. 2000 * (dbFailureCount s + Suc i)) [0..<length ms]"
    using streak by simp
  show "sorted (map (\<lambda>i. 2000 * (dbFailureCount s + Suc i)) [0..<length ms])"
    by (rule sorted_backoff)
  show "armed (trace (runCheckDb (map ProbeFail ms) s)) = armed (trace s)"
    using streak by simp
  show "dbFailureCount (runCheckDb (map ProbeFail ms) s) = dbFailureCount s + length ms"
    using streak by simp
  show "fst (checkDb ProbeOk (runCheckDb (map ProbeFail ms) s)) = Scheduled ''checkDb'' (dbFrequency s)"
    using ok(1) by (simp add: runCheckDb_frequency)
  show "dbFailureCount (snd (checkDb ProbeOk (runCheckDb (map ProbeFail ms) s))) = 0"
    by (rule ok(2))
  show "armed (trace (snd (checkDb ProbeOk (runCheckDb (map ProbeFail ms) s)))) =
        armed (trace s) @ [(''checkDb'', dbFrequency s)]"
    using ok(5) streak by (simp add: runCheckDb_frequency)
  show "map_of (timeouts (snd (checkDb ProbeOk (runCheckDb (map ProbeFail ms) s)))) ''checkDb''
        = Some (CbCheckDb, dbFrequency s)"
    using ok(3) by (simp add: runCheckDb_frequency)
  show "delays (trace (snd (checkDb ProbeOk (runCheckDb (map ProbeFail ms) s)))) =
        delays (trace (runCheckDb (map ProbeFail ms) s))"
    by (rule ok(6))
next
  assume ping: "(\<forall>net \<in> set nets. \<exists>tests t e.
        collect (map (testHost net) hostList) = Inr tests \<and> promiseAll tests = Rejects t e) \<and>
    int (pingFailureCount s) + int (length nets) \<le> pingFailureMax s \<and>
    collect (map (testHost good) hostList) = Inr oks \<and> promiseAll oks = Fulfils t vs"
  then have fails: "\<forall>net \<in> set nets. \<exists>tests t e.
        collect (map (testHost net) hostList) = Inr tests \<and> promiseAll tests = Rejects t e"
    and room: "int (pingFailureCount s) + int (length nets) \<le> pingFailureMax s"
    and tests: "collect (map (testHost good) hostList) = Inr oks"
    and all: "promiseAll oks = Fulfils t vs"
    by simp_all
  note streak = runPingHosts_streak [OF fails room]
  note ok = pingHosts_success [OF tests all, of "runPingHosts nets hostList s"]
  show "delays (trace (runPingHosts nets hostList s)) =
        delays (trace s) @ map (\<lambda>i. 2000 * (pingFailureCount s + Suc i)) [0..<length nets]"
    using streak by simp
  show "sorted (map (\<lambda>i. 2000 * (pingFailureCount s + Suc i)) [0..<length nets])"
    by (rule sorted_backoff)
  show "armed (trace (runPingHosts nets hostList s)) = armed (trace s)"
    using streak by simp
  show "pingFailureCount (runPingHosts nets hostList s) = pingFailureCount s + length nets"
    using streak by simp
  show "fst (pingHosts good hostList (runPingHosts nets hostList s))
        = Scheduled ''pingHosts'' (pingFrequency s)"
    using ok(1) by (simp add: runPingHosts_frequency)
  show "pingFailureCount (snd (pingHosts good hostList (runPingHosts nets hostList s))) = 0"
    by (rule ok(2))
  show "armed (trace (snd (pingHosts good hostList (runPingHosts nets hostList s)))) =
        armed (trace s) @ [(''pingHosts'', pingFrequency s)]"
    using ok(4) streak by (simp add: runPingHosts_frequency)
  show "map_of (timeouts (snd (pingHosts good hostList (runPingHosts nets hostList s)))) ''pingHosts''
        = Some (CbPingHosts hostList, pingFrequency s)"
    using ok(3) by (simp add: runPingHosts_frequency)
  show "delays (trace (snd (pingHosts good hostList (runPingHosts nets hostList s)))) =
        delays (trace (runPingHosts nets hostList s))"
    by (rule ok(5))
qed
lemma fresh_ping_loader:
  "chain_ping Some remdups (JArr [JStr ''a:1'', JStr ''b:2'']) None (serviceLoader (JObj []))
     = Inr ((serviceLoader (JObj []))
         \<lparr>timeouts := [(''initialPingHosts'', CbPingHosts [Some ''a:1'', Some ''b:2''], 10000)],
          trace := [SetTimeout ''initialPingHosts'' 10000]\<rparr>)"
  by (simp add: chain_ping_def urlHost_def numOr_def Let_def emit_def serviceLoader_def
        pingReadiness_def)

lemma a_refuses:
  "collect (map (testHost downA) [Some ''a:1'', Some ''b:2''])
     = Inr [Rejects 5 ''a:1'', Fulfils 3 ''b:2'']"
  "promiseAll [Rejects 5 ''a:1'', Fulfils 3 ''b:2''] = Rejects 5 ''a:1''"
  by (simp_all add: testHost_def hostPort_def downA_def promiseAll_def)

lemma both_accept:
  "collect (map (testHost allUp) [Some ''a:1'', Some ''b:2''])
     = Inr [Fulfils 3 ''a:1'', Fulfils 3 ''b:2'']"
  "promiseAll [Fulfils 3 ''a:1'', Fulfils 3 ''b:2''] = Fulfils 3 [''a:1'', ''b:2'']"
  by (simp_all add: testHost_def hostPort_def allUp_def promiseAll_def)

theorem C9_linear_backoff_and_reset_witness:
  "knexObject (projr (chain_db (''pg://localhost'', ''app'') None (serviceLoader (JObj [])))) \<and>
   int (dbFailureCount (projr (chain_db (''pg://localhost'', ''app'') None (serviceLoader (JObj [])))))
     + int (length [''down'', ''down'', ''down''])
     \<le> dbFailureMax (projr (chain_db (''pg://localhost'', ''app'') None (serviceLoader (JObj [])))) \<and>
   delays (trace (runCheckDb (map ProbeFail [''down'', ''down'', ''down''])
      (projr (chain_db (''pg://localhost'', ''app'') None (serviceLoader (JObj []))))))
     = [2000, 4000, 6000] \<and>
   armed (trace (snd (checkDb ProbeOk (runCheckDb (map ProbeFail [''down'', ''down'', ''down''])
      (projr (chain_db (''pg://localhost'', ''app'') None (serviceLoader (JObj []))))))))
     = [(''initialCheckDb'', 10000), (''checkDb'', 20000)] \<and>
   \<not> knexObject (projr (chain_ping Some remdups (JArr [JStr ''a:1'', JStr ''b:2'']) None
                        (serviceLoader (JObj [])))) \<and>
   collect (map (testHost downA) [Some ''a:1'', Some ''b:2''])
     = Inr [Rejects 5 ''a:1'', Fulfils 3 ''b:2''] \<and>
   promiseAll [Rejects 5 ''a:1'', Fulfils 3 ''b:2''] = Rejects 5 ''a:1'' \<and>
   collect (map (testHost allUp) [Some ''a:1'', Some ''b:2''])
     = Inr [Fulfils 3 ''a:1'', Fulfils 3 ''b:2''] \<and>
   promiseAll [Fulfils 3 ''a:1'', Fulfils 3 ''b:2''] = Fulfils 3 [''a:1'', ''b:2''] \<and>
   delays (trace (runPingHosts [downA, downA] [Some ''a:1'', Some ''b:2'']
      (projr (chain_ping Some remdups (JArr [JStr ''a:1'', JStr ''b:2'']) None
                (serviceLoader (JObj []))))))
     = [2000, 4000] \<and>
   armed (trace (snd (pingHosts allUp [Some ''a:1'', Some ''b:2'']
      (runPingHosts [downA, downA] [Some ''a:1'', Some ''b:2'']
         (projr (chain_ping Some remdups (JArr [JStr ''a:1'', JStr ''b:2'']) None
                   (serviceLoader (JObj []))))))))
     = [(''initialPingHosts'', 10000), (''pingHosts'', 30000)]"
proof -
  let ?d = "projr (chain_db (''pg://localhost'', ''app'') None (serviceLoader (JObj [])))"
  let ?p = "projr (chain_ping Some remdups (JArr [JStr ''a:1'', JStr ''b:2'']) None
                        (serviceLoader (JObj [])))"
  let ?hosts = "[Some ''a:1'', Some ''b:2'']"
  have h1: "knexObject ?d" by (rule db_configured)
  have h2: "int (dbFailureCount ?d) + int (length [''down'', ''down'', ''down'']) \<le> dbFailureMax ?d"
    by (simp add: db_configured fresh_loader numOr_def)
  have startd: "delays (trace ?d) = []" "dbFailureCount ?d = 0" "dbFrequency ?d = 20000"
    "armed (trace ?d) = [(''initialCheckDb'', 10000)]"
    by (simp_all add: chain_db_def Let_def emit_def serviceLoader_def numOr_def dbReadiness_def)
  note db = C9_linear_backoff_and_reset
    [where s = ?d and ms = "[''down'', ''down'', ''down'']" and nets = "[]" and hostList = ?hosts
       and good = allUp and oks = "[]" and t = 0 and vs = "[]"]
  have d1: "delays (trace (runCheckDb (map ProbeFail [''down'', ''down'', ''down'']) ?d))
              = [2000, 4000, 6000]"
    using db h1 h2 startd by (simp add: upt_rec)
  have d2: "armed (trace (snd (checkDb ProbeOk
              (runCheckDb (map ProbeFail [''down'', ''down'', ''down'']) ?d))))
              = [(''initialCheckDb'', 10000), (''checkDb'', 20000)]"
    using db h1 h2 startd by simp
  have p0: "\<not> knexObject ?p"
    unfolding fresh_ping_loader by (simp add: serviceLoader_def)
  have startp: "delays (trace ?p) = []" "pingFailureCount ?p = 0" "pingFrequency ?p = 30000"
    "armed (trace ?p) = [(''initialPingHosts'', 10000)]" "pingFailureMax ?p = 8"
    unfolding fresh_ping_loader by (simp_all add: serviceLoader_def)
  have fails: "\<forall>net \<in> set [downA, downA]. \<exists>tests t e.
        collect (map (testHost net) ?hosts) = Inr tests \<and> promiseAll tests = Rejects t e"
    using a_refuses by auto
  have room: "int (pingFailureCount ?p) + int (length [downA, downA]) \<le> pingFailureMax ?p"
    using startp by simp
  note ping = C9_linear_backoff_and_reset
    [where s = ?p and ms = "[]" and nets = "[downA, downA]" and hostList = ?hosts
       and good = allUp and oks = "[Fulfils 3 ''a:1'', Fulfils 3 ''b:2'']" and t = 3
       and vs = "[''a:1'', ''b:2'']"]
  from ping fails room both_accept
  have pconc: "delays (trace (runPingHosts [downA, downA] ?hosts ?p)) =
        delays (trace ?p) @ map (\<lambda>i. 2000 * (pingFailureCount ?p + Suc i)) [0..<length [downA, downA]] \<and>
      armed (trace (snd (pingHosts allUp ?hosts (runPingHosts [downA, downA] ?hosts ?p)))) =
        armed (trace ?p) @ [(''pingHosts'', pingFrequency ?p)]"
    by blast
  have p1: "delays (trace (runPingHosts [downA, downA] ?hosts ?p)) = [2000, 4000]"
    using pconc startp by (simp add: upt_rec)
  have p2: "armed (trace (snd (pingHosts allUp ?hosts (runPingHosts [downA, downA] ?hosts ?p))))
              = [(''initialPingHosts'', 10000), (''pingHosts'', 30000)]"
    using pconc startp by simp
  from h1 h2 d1 d2 p0 a_refuses both_accept p1 p2 show ?thesis by (intro conjI)
qed

section \<open>The race between teardown and the 10 s timer\<close>

lemma fold_max_less: "fold max xs (a::nat) < d \<longleftrightarrow> a < d \<and> (\<forall>x \<in> set xs. x < d)"
  by (induction xs arbitrary: a) auto

lemma fulfilments_all:
  "rejections ps = [] \<Longrightarrow> \<not> list_ex isPending ps \<Longrightarrow>
     (\<forall>x \<in> set (map fst (fulfilments ps)). x < d) \<longleftrightarrow> list_all (fulfilledBefore d) ps"
  by (induction ps rule: rejections.induct) simp_all

lemma not_all_fulfilled_rejected:
  "rejections ps \<noteq> [] \<Longrightarrow> \<not> list_all (fulfilledBefore d) ps"
  by (induction ps rule: rejections.induct) simp_all

lemma not_all_fulfilled_pending:
  "list_ex isPending ps \<Longrightarrow> \<not> list_all (fulfilledBefore d) ps"
  by (induction ps rule: rejections.induct) simp_all

lemma promiseAll_fulfilled_before:
  "(\<exists>t vs. promiseAll ps = Fulfils t vs \<and> t < d) \<longleftrightarrow> 0 < d \<and> list_all (fulfilledBefore d) ps"
proof (cases "rejections ps")
  case (Cons r rs)
  then show ?thesis
    using not_all_fulfilled_rejected [of ps d]
    by (auto simp: promiseAll_def split: prod.splits)
next
  case Nil
  show ?thesis
  proof (cases "list_ex isPending ps")
    case True
    then show ?thesis
      using Nil not_all_fulfilled_pending [of ps d] by (simp add: promiseAll_def)
  next
    case False
    then show ?thesis
      using Nil fulfilments_all [OF Nil False, of d]
      by (simp add: promiseAll_def fold_max_less)
  qed
qed

lemma exitStatus_exitProcess:
  "exits (trace s) = [] \<Longrightarrow>
     exitStatus ((exitProcess r (emit [Info m] s))\<lparr>waitingForExit := True\<rparr>) = Some (exitCode r)"
  by (simp add: exitStatus_def exitProcess_def emit_def exits_append)

lemma exitStatus_forceExit:
  "exits (trace s) = [] \<Longrightarrow> exitStatus (forceExit s) = Some 1"
  by (simp add: forceExit_def exitStatus_exitProcess) (simp add: exitCode_def)

lemma exitStatus_forceExit_logged:
  "exits (trace s) = [] \<Longrightarrow> exitStatus (forceExit (emit [Error m] s)) = Some 1"
  by (rule exitStatus_forceExit) (simp add: emit_def exits_append)

lemma awaitShutdown_cases:
  assumes "exits (trace s) = []"
  shows "fst (awaitShutdown r world cs s) \<le> 10000 \<and>
         (if list_all (fulfilledBefore 10000) (map world cs)
          then exitStatus (snd (awaitShutdown r world cs s)) = Some (exitCode r) \<and>
               fst (awaitShutdown r world cs s) < 10000
          else exitStatus (snd (awaitShutdown r world cs s)) = Some 1 \<and>
               fst (awaitShutdown r world cs s) = 10000)"
proof (cases "promiseAll (map world cs)")
  case (Fulfils t vs)
  show ?thesis
  proof (cases "t < 10000")
    case True
    with Fulfils have "list_all (fulfilledBefore 10000) (map world cs)"
      using promiseAll_fulfilled_before [of "map world cs" 10000] by blast
    with True Fulfils assms show ?thesis
      by (simp add: awaitShutdown_def exitStatus_exitProcess)
  next
    case False
    with Fulfils have "\<not> list_all (fulfilledBefore 10000) (map world cs)"
      using promiseAll_fulfilled_before [of "map world cs" 10000] by auto
    with False Fulfils assms show ?thesis
      by (simp add: awaitShutdown_def exitStatus_forceExit)
  qed
next
  case (Rejects t e)
  then have "\<not> list_all (fulfilledBefore 10000) (map world cs)"
    using promiseAll_fulfilled_before [of "map world cs" 10000] by auto
  with Rejects assms show ?thesis
    by (simp add: awaitShutdown_def exitStatus_forceExit exitStatus_forceExit_logged)
next
  case Pending
  then have "\<not> list_all (fulfilledBefore 10000) (map world cs)"
    using promiseAll_fulfilled_before [of "map world cs" 10000] by auto
  with Pending assms show ?thesis
    by (simp add: awaitShutdown_def exitStatus_forceExit)
qed

lemma awaitShutdown_trace:
  "(if list_all (fulfilledBefore 10000) (map world cs)
    then awaitShutdown r world cs s =
           (fold max (map fst (fulfilments (map world cs))) 0,
            s\<lparr>trace := trace s @
                   [Info [S ''> Everything is closed''],
                    Info [S ''Process killed from signal: '', S r],
                    ProcessExit (exitCode r)],
               waitingForExit := True\<rparr>)
    else awaitShutdown r world cs s =
           (10000,
            s\<lparr>trace := trace s @
                   (case rejections (map world cs) of
                      [] \<Rightarrow> []
                    | q # qs \<Rightarrow> (if fst (earliest q qs) < 10000
                                then [Error [S (snd (earliest q qs))]] else [])) @
                   [Info [S ''Exit timeout: Forcing it!''],
                    Info [S ''Process killed from signal: '', S ''FORCE''],
                    ProcessExit 1],
               waitingForExit := True\<rparr>))"
proof (cases "rejections (map world cs)")
  case (Cons q qs)
  then have "\<not> list_all (fulfilledBefore 10000) (map world cs)"
    using not_all_fulfilled_rejected [of "map world cs" 10000] by simp
  with Cons show ?thesis
    by (cases "earliest q qs")
       (simp add: awaitShutdown_def promiseAll_def forceExit_def exitProcess_def emit_def
          exitCode_def)
next
  case Nil
  show ?thesis
  proof (cases "list_ex isPending (map world cs)")
    case True
    then have "\<not> list_all (fulfilledBefore 10000) (map world cs)"
      using not_all_fulfilled_pending [of "map world cs" 10000] by simp
    with Nil True show ?thesis
      by (simp add: awaitShutdown_def promiseAll_def forceExit_def exitProcess_def emit_def
            exitCode_def)
  next
    case False
    have all: "promiseAll (map world cs) =
                 Fulfils (fold max (map fst (fulfilments (map world cs))) 0)
                         (map snd (fulfilments (map world cs)))"
      using Nil False by (simp add: promiseAll_def)
    have iff: "fold max (map fst (fulfilments (map world cs))) 0 < 10000 \<longleftrightarrow>
               list_all (fulfilledBefore 10000) (map world cs)"
      using promiseAll_fulfilled_before [of "map world cs" 10000] all by simp
    show ?thesis
      using Nil iff
      by (simp add: awaitShutdown_def all forceExit_def exitProcess_def emit_def exitCode_def)
  qed
qed

text \<open>
  C4, as the code has it. A shutdown triggered before any exit ends the process no
  later than 10000 ms after the trigger. When every teardown promise is fulfilled
  before 10000 ms, the process exits at the moment the last of them is fulfilled: the
  success line is logged and \<open>exitProcess\<close> is called with the triggering reason,
  whose status is 0 for SIGINT, SIGTERM and SIGQUIT and 1 for the other reasons the
  loader uses. In every other case, a promise rejected or one still pending at
  10000 ms, nothing exits before the timer: a rejection that came before the timer
  is only logged, and at 10000 ms the timer logs that it forces the exit and calls
  \<open>exitProcess\<close> with FORCE, status 1. Either way the latch is closed.
\<close>

theorem C4_exit_within_deadline:
  assumes "\<not> waitingForExit s" and "exits (trace s) = []"
  shows "fst (shutdown r world s) \<le> 10000 \<and>
         (if list_all (fulfilledBefore 10000) (map world (teardownActions s))
          then exitStatus (snd (shutdown r world s)) = Some (exitCode r) \<and>
               fst (shutdown r world s) < 10000 \<and>
               fst (shutdown r world s)
                 = fold max (map fst (fulfilments (map world (teardownActions s)))) 0 \<and>
               trace (snd (shutdown r world s)) =
                 trace (trigger r s) @
                 [Info [S ''> Everything is closed''],
                  Info [S ''Process killed from signal: '', S r],
                  ProcessExit (exitCode r)]
          else exitStatus (snd (shutdown r world s)) = Some 1 \<and>
               fst (shutdown r world s) = 10000 \<and>
               trace (snd (shutdown r world s)) =
                 trace (trigger r s) @
                 (case rejections (map world (teardownActions s)) of
                    [] \<Rightarrow> []
                  | q # qs \<Rightarrow> (if fst (earliest q qs) < 10000
                              then [Error [S (snd (earliest q qs))]] else [])) @
                 [Info [S ''Exit timeout: Forcing it!''],
                  Info [S ''Process killed from signal: '', S ''FORCE''],
                  ProcessExit 1]) \<and>
         waitingForExit (snd (shutdown r world s)) \<and>
         map exitCode signals = [0, 0, 0, 1, 1] \<and>
         map exitCode [''NODB'', ''NOHOST'', ''START'', ''FORCE''] = [1, 1, 1, 1]"
proof -
  have none: "exits (trace (trigger r s)) = []"
    using assms(2) by (simp add: exits_trigger)
  note status = awaitShutdown_cases [OF none, of r world "teardownActions s"]
  note events = awaitShutdown_trace [of world "teardownActions s" r "trigger r s"]
  have codes: "map exitCode signals = [0, 0, 0, 1, 1] \<and>
         map exitCode [''NODB'', ''NOHOST'', ''START'', ''FORCE''] = [1, 1, 1, 1]"
    by (simp add: signals_def exitCode_def)
  show ?thesis
  proof (cases "list_all (fulfilledBefore 10000) (map world (teardownActions s))")
    case True
    with status events codes show ?thesis
      by (simp add: shutdown_def)
  next
    case False
    with status events codes show ?thesis
      by (simp add: shutdown_def)
  qed
qed

theorem C4_exit_within_deadline_witness:
  "\<not> waitingForExit (projr (chain_db (''pg://localhost'', ''app'') None (serviceLoader (JObj [])))) \<and>
   exits (trace (projr (chain_db (''pg://localhost'', ''app'') None (serviceLoader (JObj []))))) = [] \<and>
   list_all (fulfilledBefore 10000)
     (map allClose (teardownActions
        (projr (chain_db (''pg://localhost'', ''app'') None (serviceLoader (JObj [])))))) \<and>
   exitStatus (snd (shutdown ''SIGTERM'' allClose
        (projr (chain_db (''pg://localhost'', ''app'') None (serviceLoader (JObj [])))))) = Some 0 \<and>
   exitStatus (snd (shutdown ''SIGTERM'' dbCloseFails
        (projr (chain_db (''pg://localhost'', ''app'') None (serviceLoader (JObj [])))))) = Some 1"
proof -
  let ?s = "projr (chain_db (''pg://localhost'', ''app'') None (serviceLoader (JObj [])))"
  have h: "exits (trace ?s) = []"
    by (simp add: chain_db_def Let_def emit_def serviceLoader_def)
  have h0: "\<not> waitingForExit ?s"
    by (simp add: db_configured fresh_loader)
  have acts: "teardownActions ?s = [KnexDestroy, AmqClose]"
    by (simp add: chain_db_def Let_def emit_def serviceLoader_def teardownActions_def)
  have good: "list_all (fulfilledBefore 10000) (map allClose (teardownActions ?s))"
    by (simp add: acts allClose_def)
  have bad: "\<not> list_all (fulfilledBefore 10000) (map dbCloseFails (teardownActions ?s))"
    by (simp add: acts dbCloseFails_def)
  have code: "exitCode ''SIGTERM'' = 0" by (simp add: exitCode_def)
  have a: "exitStatus (snd (shutdown ''SIGTERM'' allClose ?s)) = Some 0"
    using C4_exit_within_deadline [OF h0 h, of "''SIGTERM''" allClose] good code by simp
  have b: "exitStatus (snd (shutdown ''SIGTERM'' dbCloseFails ?s)) = Some 1"
    using C4_exit_within_deadline [OF h0 h, of "''SIGTERM''" dbCloseFails] bad by simp
  from h0 h good a b show ?thesis by (intro conjI)
qed

text \<open>
  The claim as written fails where a teardown promise is rejected: with the reason
  SIGTERM, whose status is 0, and the database pool's close rejected after 5 ms while
  the broker's close is fulfilled after 3 ms, every teardown promise has settled long
  before the 10000 ms timer, yet the process exits only at the timer, with status 1.
\<close>

theorem C4_counterexample:
  "list_all (settledBefore 10000)
     (map dbCloseFails (teardownActions
        (projr (chain_db (''pg://localhost'', ''app'') None (serviceLoader (JObj [])))))) \<and>
   exitCode ''SIGTERM'' = 0 \<and>
   exitStatus (snd (shutdown ''SIGTERM'' dbCloseFails
        (projr (chain_db (''pg://localhost'', ''app'') None (serviceLoader (JObj [])))))) = Some 1 \<and>
   fst (shutdown ''SIGTERM'' dbCloseFails
        (projr (chain_db (''pg://localhost'', ''app'') None (serviceLoader (JObj []))))) = 10000"
  by (simp add: chain_db_def Let_def emit_def serviceLoader_def teardownActions_def
        dbCloseFails_def shutdown_def awaitShutdown_def promiseAll_def trigger_def
        closeGracefully_def forceExit_def exitProcess_def exitCode_def exitStatus_def
        numOr_def strOr_def dbReadiness_def)

section \<open>Which resources are torn down\<close>

text \<open>
  C5 at the failing input. A loader on which nothing was configured and nothing was
  started is sent SIGTERM: no startup action is registered or has run, and yet the
  teardown launches the close of the message broker, because the test \<open>if (amq)\<close>
  is on the imported module, an object.
\<close>

theorem C5_broker_closed_though_never_started:
  "promiseOrder (serviceLoader (JObj [(''start'', JFun 0), (''close'', JFun 1)])) = [] \<and>
   started (trace (serviceLoader (JObj [(''start'', JFun 0), (''close'', JFun 1)]))) = [] \<and>
   teardownActions (serviceLoader (JObj [(''start'', JFun 0), (''close'', JFun 1)])) = [AmqClose] \<and>
   launched (trace (trigger ''SIGTERM''
      (serviceLoader (JObj [(''start'', JFun 0), (''close'', JFun 1)])))) = [AmqClose]"
  by (simp add: serviceLoader_def teardownActions_def trigger_def closeGracefully_def emit_def)

section \<open>The exit hook\<close>

lemma configure_onExit:
  "hs \<noteq> [] \<Longrightarrow> configure (map chain_onExit hs) s = Inr (s\<lparr>onExitPromise := last hs\<rparr>)"
proof (induction hs arbitrary: s)
  case Nil
  then show ?case by simp
next
  case (Cons h hs)
  show ?case
  proof (cases "hs = []")
    case True
    then show ?thesis by (simp add: chain_onExit_def)
  next
    case False
    with Cons.IH [OF False, of "s\<lparr>onExitPromise := h\<rparr>"] show ?thesis
      by (simp add: chain_onExit_def)
  qed
qed

lemma hooks_of_teardownActions:
  "filter isHook (teardownActions s) =
     (if truthy (onExitPromise s) then [ExitHook (onExitPromise s)] else [])"
  by (simp add: teardownActions_def)

text \<open>
  C10. After any non-empty sequence of \<open>onExit\<close> calls the loader holds the argument
  of the last call only, and the first shutdown trigger launches that hook and no
  other: the hooks among the launched teardown promises are the last argument alone
  (none when the last argument is not a function but a falsy value).
\<close>

theorem C10_onExit_last_write_wins:
  assumes "hs \<noteq> []" and "\<not> waitingForExit s"
  shows "\<exists>s'. configure (map chain_onExit hs) s = Inr s' \<and>
           onExitPromise s' = last hs \<and>
           filter isHook (launched (trace (trigger r s'))) =
             filter isHook (launched (trace s)) @
             (if truthy (last hs) then [ExitHook (last hs)] else [])"
proof -
  let ?s' = "s\<lparr>onExitPromise := last hs\<rparr>"
  have conf: "configure (map chain_onExit hs) s = Inr ?s'"
    by (rule configure_onExit [OF assms(1)])
  have "open": "\<not> waitingForExit ?s'" using assms(2) by simp
  have "filter isHook (launched (trace (trigger r ?s'))) =
          filter isHook (launched (trace s)) @
          (if truthy (last hs) then [ExitHook (last hs)] else [])"
    by (simp add: launched_trigger [OF "open"] hooks_of_teardownActions)
  with conf show ?thesis by simp
qed

theorem C10_onExit_last_write_wins_witness:
  "[JFun 1, JFun 2, JFun 3] \<noteq> [] \<and>
   \<not> waitingForExit (serviceLoader (JObj [])) \<and>
   (\<exists>s'. configure (map chain_onExit [JFun 1, JFun 2, JFun 3]) (serviceLoader (JObj [])) = Inr s' \<and>
      onExitPromise s' = JFun 3 \<and>
      filter isHook (launched (trace (trigger ''SIGINT'' s'))) = [ExitHook (JFun 3)])"
proof -
  have h1: "[JFun 1, JFun 2, JFun 3] \<noteq> []" by simp
  have h2: "\<not> waitingForExit (serviceLoader (JObj []))" by (rule fresh_loader)
  have none: "launched (trace (serviceLoader (JObj []))) = []"
    by (simp add: serviceLoader_def)
  from C10_onExit_last_write_wins [OF h1 h2, of "''SIGINT''"] none
  have "\<exists>s'. configure (map chain_onExit [JFun 1, JFun 2, JFun 3]) (serviceLoader (JObj [])) = Inr s' \<and>
      onExitPromise s' = JFun 3 \<and>
      filter isHook (launched (trace (trigger ''SIGINT'' s'))) = [ExitHook (JFun 3)]"
    by simp
  with h1 h2 show ?thesis by (intro conjI)
qed

section \<open>Validation in the configuration methods\<close>








section \<open>The database at configuration time\<close>

text \<open>
  C8, as the code has it. \<open>db\<close> registers no startup action: the sequencer's order
  and its thunks are as before. The call itself initialises the pool and, in the same
  turn, puts the first \<open>checkDb\<close> on the timer \<open>initialCheckDb\<close> of 10000 ms; the
  delay runs from the configuration call, whatever \<open>done\<close> does later.
\<close>

theorem C8_db_configured_not_sequenced:
  "\<not> isl (chain_db dbConfig opts s) \<and>
   promiseOrder (projr (chain_db dbConfig opts s)) = promiseOrder s \<and>
   promises (projr (chain_db dbConfig opts s)) = promises s \<and>
   knexObject (projr (chain_db dbConfig opts s)) \<and>
   trace (projr (chain_db dbConfig opts s)) =
     trace s @ [Debug [S ''load db''],
                DbInit (strOr opts pgUrl (fst dbConfig)) (strOr opts pgDatabase (snd dbConfig)),
                SetTimeout ''initialCheckDb'' 10000] \<and>
   map_of (timeouts (projr (chain_db dbConfig opts s))) ''initialCheckDb'' = Some (CbCheckDb, 10000)"
  by (simp add: chain_db_def Let_def emit_def dbReadiness_def update_conv')

text \<open>
  The claim as written fails: on a fresh loader, \<open>db\<close> leaves the sequencer empty,
  and the first check is on its 10000 ms timer before \<open>done\<close> has been called at
  all; \<open>done\<close> then starts nothing.
\<close>

theorem C8_counterexample:
  "promiseOrder (projr (chain_db (''pg://localhost'', ''app'') None (serviceLoader (JObj [])))) = [] \<and>
   trace (projr (chain_db (''pg://localhost'', ''app'') None (serviceLoader (JObj [])))) =
     [Debug [S ''load db''], DbInit ''pg://localhost'' ''app'', SetTimeout ''initialCheckDb'' 10000] \<and>
   started (trace (chain_done allOk None
     (projr (chain_db (''pg://localhost'', ''app'') None (serviceLoader (JObj [])))))) = []"
  by (simp add: chain_db_def Let_def emit_def dbReadiness_def serviceLoader_def strOr_def
        numOr_def chain_done_def)

section \<open>The startup sequence\<close>
































end
